theory Spec2Isabelle
  imports Complex_Main "HOL-Library.Sublist"
begin

section \<open>Text\<close>

text \<open>
  A Python \<open>str\<close> is a sequence of Unicode code points, so it is modelled as a list of
  natural numbers (the code points); a \<open>bytes\<close> value is a HOL \<open>string\<close>, whose characters
  are bytes. \<open>ustr\<close> reads an ASCII literal of the source as a \<open>str\<close>.
\<close>

type_synonym pystr = "nat list"

definition ustr :: "string \<Rightarrow> pystr" where
  "ustr s = map of_char s"

text \<open>
  The class \<open>[0-9]\<close> of the regular expressions, and the two Unicode classes the source
  relies on: \<open>\d\<close> in a \<open>str\<close> pattern is every code point with the decimal-digit property
  (category Nd), and \<open>\s\<close> and \<open>str.strip()\<close> use the white-space property. Every run of
  decimal digits in Unicode 14.0 (the database of Python 3.11) is ten consecutive code
  points, so the table lists the code point of each zero.
\<close>

definition ascii_digit :: "nat \<Rightarrow> bool" where
  "ascii_digit c = (48 \<le> c \<and> c \<le> 57)"

definition nd_zeros :: "nat list" where
  "nd_zeros = [48, 1632, 1776, 1984, 2406, 2534, 2662, 2790, 2918, 3046, 3174, 3302,
     3430, 3558, 3664, 3792, 3872, 4160, 4240, 6112, 6160, 6470, 6608, 6784, 6800, 6992,
     7088, 7232, 7248, 42528, 43216, 43264, 43472, 43504, 43600, 44016, 65296, 66720,
     68912, 69734, 69872, 69942, 70096, 70384, 70736, 70864, 71248, 71360, 71472, 71904,
     72016, 72784, 73040, 73120, 92768, 92864, 93008, 120782, 120792, 120802, 120812,
     120822, 123200, 123632, 125264, 130032]"

definition uni_decimal :: "nat \<Rightarrow> bool" where
  "uni_decimal c = list_ex (\<lambda>z. z \<le> c \<and> c < z + 10) nd_zeros"

definition uni_space :: "nat \<Rightarrow> bool" where
  "uni_space c = (c \<in> set [9, 10, 11, 12, 13, 28, 29, 30, 31, 32, 133, 160, 5760,
     8192, 8193, 8194, 8195, 8196, 8197, 8198, 8199, 8200, 8201, 8202, 8232, 8233, 8239,
     8287, 12288])"

definition py_strip :: "pystr \<Rightarrow> pystr" where
  "py_strip s = rev (dropWhile uni_space (rev (dropWhile uni_space s)))"

section \<open>The frame parser: \<open>parse_scale_data\<close>\<close>

text \<open>
  \<open>re.sub(r'^[^\d]*', '', raw_data)\<close>: without the multi-line flag \<open>^\<close> matches at
  position 0 only, and the greedy class takes every leading code point that is not a
  decimal digit, so the one replacement drops exactly that prefix.
\<close>

definition strip_leading_nondigits :: "pystr \<Rightarrow> pystr" where
  "strip_leading_nondigits s = dropWhile (\<lambda>c. \<not> uni_decimal c) s"

text \<open>\<open>re.sub(r'[^0-9\.g]', '', cleaned_data)\<close> deletes every code point outside the class.\<close>

definition weight_char :: "nat \<Rightarrow> bool" where
  "weight_char c = (ascii_digit c \<or> c = 46 \<or> c = 103)"

definition keep_weight_chars :: "pystr \<Rightarrow> pystr" where
  "keep_weight_chars s = filter weight_char s"

definition clean :: "pystr \<Rightarrow> pystr" where
  "clean raw_data = py_strip (keep_weight_chars (strip_leading_nondigits raw_data))"

text \<open>
  \<open>re.match(r'([0-9]+(?:\.[0-9]+)?)\s*(g|kg|lb)?', cleaned_data)\<close>, giving groups 1 and 2
  of the match, or \<open>None\<close> when there is no match. The match is anchored at the start of
  the text and not at its end. After the leading \<open>[0-9]+\<close> every part of the pattern can
  match the empty text, so the backtracking matcher never gives back what a greedy part
  took: the digits are the longest run, the fraction is taken when a point and at least
  one digit follow, the white space is the longest run, and the unit alternatives are
  tried in the order written.
\<close>

definition match_unit :: "pystr \<Rightarrow> pystr option" where
  "match_unit s =
     (if prefix (ustr ''g'') s then Some (ustr ''g'')
      else if prefix (ustr ''kg'') s then Some (ustr ''kg'')
      else if prefix (ustr ''lb'') s then Some (ustr ''lb'')
      else None)"

definition match_fraction :: "pystr \<Rightarrow> pystr \<times> pystr" where
  "match_fraction s =
     (case s of
        [] \<Rightarrow> ([], s)
      | c # t \<Rightarrow>
          if c = 46 \<and> takeWhile ascii_digit t \<noteq> []
          then (c # takeWhile ascii_digit t, dropWhile ascii_digit t)
          else ([], s))"

definition re_match_weight :: "pystr \<Rightarrow> (pystr \<times> pystr option) option" where
  "re_match_weight s =
     (let ds = takeWhile ascii_digit s;
          (fpart, rest) = match_fraction (dropWhile ascii_digit s)
      in if ds = [] then None
         else Some (ds @ fpart, match_unit (dropWhile uni_space rest)))"

text \<open>
  A Python \<open>float\<close> is a binary64 number. The conversions of the source only produce
  values that are not negative, so a float is modelled as the rational it stands for, or
  as infinity.
\<close>

datatype pyfloat = Float rat | Infinity

text \<open>
  \<open>binary64 a b\<close> is the float nearest to the quotient \<open>a / b\<close> (for \<open>b > 0\<close>), as the
  correctly rounded conversion of Python gives it. \<open>e\<close> is the binary exponent of the
  quotient, \<open>ulp\<close> the distance between neighbouring floats at that exponent (with the
  fixed distance \<open>2\<^sup>-\<^sup>1\<^sup>0\<^sup>7\<^sup>4\<close> in the subnormal range), the quotient is rounded to a whole
  number of \<open>ulp\<close>s, a tie going to the even one, and a result that reaches \<open>2\<^sup>1\<^sup>0\<^sup>2\<^sup>4\<close> is
  infinity.
\<close>

fun bit_length :: "nat \<Rightarrow> nat" where
  "bit_length n = (if n = 0 then 0 else Suc (bit_length (n div 2)))"

declare bit_length.simps [simp del]

definition pow2 :: "int \<Rightarrow> rat" where
  "pow2 d = (if 0 \<le> d then 2 ^ nat d else 1 / 2 ^ nat (- d))"

definition round_half_even :: "rat \<Rightarrow> int" where
  "round_half_even x =
     (let f = \<lfloor>x\<rfloor>; d = x - of_int f
      in if d < 1 / 2 then f else if 1 / 2 < d then f + 1 else if even f then f else f + 1)"

definition binary64 :: "nat \<Rightarrow> nat \<Rightarrow> pyfloat" where
  "binary64 a b =
     (if a = 0 then Float 0
      else
        let q = of_nat a / of_nat b;
            d = int (bit_length a) - int (bit_length b);
            e = (if pow2 d \<le> q then d else d - 1);
            ulp = pow2 (max e (- 1022) - 52);
            r = of_int (round_half_even (q / ulp)) * ulp
        in if pow2 1024 \<le> r then Infinity else Float r)"

text \<open>
  \<open>float(weight)\<close>. \<open>py_float\<close> covers the numerals \<open>digits\<close> and \<open>digits.digits\<close>, on
  which Python's \<open>float\<close> never raises: the numeral \<open>ip.fp\<close> denotes the number with the
  digits \<open>ip\<close> and \<open>fp\<close> divided by ten to the length of \<open>fp\<close>. Any other text is given
  \<open>None\<close>, the \<open>ValueError\<close> branch of the source. Group 1 of the match is always such a
  numeral (lemma \<open>py_float_group1\<close> below), so no other text reaches the call.
\<close>

definition digits_value :: "pystr \<Rightarrow> nat" where
  "digits_value ds = foldl (\<lambda>a c. 10 * a + (c - 48)) 0 ds"

definition py_float :: "pystr \<Rightarrow> pyfloat option" where
  "py_float s =
     (let ip = takeWhile ascii_digit s; r = dropWhile ascii_digit s
      in if ip = [] then None
         else case r of
                [] \<Rightarrow> Some (binary64 (digits_value ip) 1)
              | c # fp \<Rightarrow>
                  if c = 46 \<and> fp \<noteq> [] \<and> list_all ascii_digit fp
                  then Some (binary64 (digits_value (ip @ fp)) (10 ^ length fp))
                  else None)"

text \<open>
  The function returns the Python pair as it is: \<open>(None, None)\<close> on failure, otherwise the
  weight and the unit, where an absent (or empty) group 2 is replaced by \<open>'g'\<close>.
\<close>

definition parse_scale_data :: "pystr \<Rightarrow> pyfloat option \<times> pystr option" where
  "parse_scale_data raw_data =
     (case re_match_weight (clean raw_data) of
        None \<Rightarrow> (None, None)
      | Some (g1, g2) \<Rightarrow>
          (case py_float g1 of
             None \<Rightarrow> (None, None)
           | Some weight \<Rightarrow>
               (Some weight,
                Some (case g2 of
                        None \<Rightarrow> ustr ''g''
                      | Some u \<Rightarrow> if u \<noteq> [] then u else ustr ''g''))))"

section \<open>Exceptions\<close>

text \<open>
  An exception is its class and the text \<open>str(e)\<close>. \<open>except serial.SerialException\<close>
  catches the class and its subclass \<open>SerialTimeoutException\<close>;
  \<open>except requests.exceptions.RequestException\<close> catches the class and its subclasses
  (\<open>ConnectionError\<close> and \<open>Timeout\<close> among them); \<open>except Exception\<close> catches every
  class listed here.
\<close>

datatype exn_class =
    SerialException | SerialTimeoutException | UnicodeDecodeError | OSError
  | RequestException | ConnectionError | Timeout | ValueError
  | AttributeError | TypeError | KeyError

datatype exn = Exn (exn_class: exn_class) (exn_str: pystr)

definition is_SerialException :: "exn \<Rightarrow> bool" where
  "is_SerialException e = (exn_class e = SerialException \<or> exn_class e = SerialTimeoutException)"

definition is_RequestException :: "exn \<Rightarrow> bool" where
  "is_RequestException e =
     (exn_class e = RequestException \<or> exn_class e = ConnectionError \<or> exn_class e = Timeout)"

section \<open>The serial ports\<close>

text \<open>
  The host as the program sees it. \<open>os_name\<close> is \<open>os.name\<close> and \<open>listdir_dev\<close> the outcome
  of \<open>os.listdir('/dev')\<close>. For each port name, \<open>serial_open\<close> is the outcome of
  \<open>serial.Serial(name, baudrate=9600, timeout=1)\<close> (\<open>None\<close>: the port opened),
  \<open>serial_is_open\<close> the value of \<open>ser.is_open\<close> afterwards, \<open>serial_write\<close> the outcome of
  \<open>ser.write\<close>, and \<open>serial_lines\<close> the outcomes of the coming calls of
  \<open>ser.readline().decode('utf-8')\<close>, in order: the decoded line, or the exception raised
  by the read (a \<open>SerialException\<close>) or by the decoding (a \<open>UnicodeDecodeError\<close>). A read
  with nothing pending runs into the one-second timeout and returns the empty line.
  \<open>trace\<close> records what the program did: the lines it printed and its port operations.
\<close>

datatype event = Print pystr | Open pystr | Write pystr string | ReadLine pystr

record world =
  os_name :: pystr
  listdir_dev :: "exn + pystr list"
  serial_open :: "pystr \<Rightarrow> exn option"
  serial_is_open :: "pystr \<Rightarrow> bool"
  serial_write :: "pystr \<Rightarrow> exn option"
  serial_lines :: "pystr \<Rightarrow> (exn + pystr) list"
  trace :: "event list"

datatype handle = Handle (port: pystr)

definition emit :: "event \<Rightarrow> world \<Rightarrow> world" where
  "emit ev w = w\<lparr>trace := trace w @ [ev]\<rparr>"

definition Serial :: "pystr \<Rightarrow> world \<Rightarrow> (exn + handle) \<times> world" where
  "Serial name w =
     (case serial_open w name of
        Some e \<Rightarrow> (Inl e, emit (Open name) w)
      | None \<Rightarrow> (Inr (Handle name), emit (Open name) w))"

definition ser_write :: "handle \<Rightarrow> string \<Rightarrow> world \<Rightarrow> (exn + unit) \<times> world" where
  "ser_write ser data w =
     (case serial_write w (port ser) of
        Some e \<Rightarrow> (Inl e, emit (Write (port ser) data) w)
      | None \<Rightarrow> (Inr (), emit (Write (port ser) data) w))"

text \<open>\<open>ser.readline().decode('utf-8').strip()\<close>\<close>

definition readline_text :: "handle \<Rightarrow> world \<Rightarrow> (exn + pystr) \<times> world" where
  "readline_text ser w =
     (case serial_lines w (port ser) of
        [] \<Rightarrow> (Inr (py_strip []), emit (ReadLine (port ser)) w)
      | r # rs \<Rightarrow>
          (case r of Inl e \<Rightarrow> Inl e | Inr line \<Rightarrow> Inr (py_strip line),
           emit (ReadLine (port ser)) (w\<lparr>serial_lines := (serial_lines w)(port ser := rs)\<rparr>)))"

section \<open>Device discovery: \<open>find_usb_scale\<close>\<close>

text \<open>\<open>str(port)\<close> inside \<open>f'COM{port}'\<close>: the decimal digits of a number.\<close>

fun str_nat :: "nat \<Rightarrow> pystr" where
  "str_nat n = (if n < 10 then [48 + n] else str_nat (n div 10) @ [48 + n mod 10])"

declare str_nat.simps [simp del]

text \<open>
  The candidates of the two loops: \<open>COM1\<close> to \<open>COM255\<close> under \<open>os.name == 'nt'\<close>, and
  otherwise \<open>/dev/\<close> followed by each entry of the listing that starts with \<open>ttyUSB\<close> or
  \<open>ttyACM\<close>, in the order of the listing.
\<close>

definition windows_ports :: "pystr list" where
  "windows_ports = map (\<lambda>port. ustr ''COM'' @ str_nat port) [1..<256]"

definition posix_ports :: "pystr list \<Rightarrow> pystr list" where
  "posix_ports entries =
     map (\<lambda>dev. ustr ''/dev/'' @ dev)
       (filter (\<lambda>dev. prefix (ustr ''ttyUSB'') dev \<or> prefix (ustr ''ttyACM'') dev) entries)"

text \<open>
  The body of the \<open>try\<close> for one candidate. \<open>Inr (Some ser)\<close> is \<open>return ser\<close>, \<open>Inr None\<close>
  is falling out of the \<open>if\<close> into the next iteration, \<open>Inl e\<close> is the exception \<open>e\<close>
  raised. The line read back after the probe token is decoded and dropped.
\<close>

definition probe :: "pystr \<Rightarrow> world \<Rightarrow> (exn + handle option) \<times> world" where
  "probe name w =
     (case Serial name w of
        (Inl e, w1) \<Rightarrow> (Inl e, w1)
      | (Inr ser, w1) \<Rightarrow>
          if serial_is_open w1 (port ser) then
            (case ser_write ser ''CHECK'' w1 of
               (Inl e, w2) \<Rightarrow> (Inl e, w2)
             | (Inr _, w2) \<Rightarrow>
                 (case readline_text ser w2 of
                    (Inl e, w3) \<Rightarrow> (Inl e, w3)
                  | (Inr data, w3) \<Rightarrow>
                      (Inr (Some ser), emit (Print (ustr ''Found USB scale at '' @ name)) w3)))
          else (Inr None, w1))"

text \<open>
  The loop over the candidates with its handler: \<open>except serial.SerialException: continue\<close>.
  An exception of any other class leaves the loop and the function.
\<close>

fun scan_ports :: "pystr list \<Rightarrow> world \<Rightarrow> (exn + handle option) \<times> world" where
  "scan_ports [] w = (Inr None, w)"
| "scan_ports (name # names) w =
     (case probe name w of
        (Inl e, w') \<Rightarrow> if is_SerialException e then scan_ports names w' else (Inl e, w')
      | (Inr (Some ser), w') \<Rightarrow> (Inr (Some ser), w')
      | (Inr None, w') \<Rightarrow> scan_ports names w')"

definition find_usb_scale :: "world \<Rightarrow> (exn + handle option) \<times> world" where
  "find_usb_scale w =
     (let w0 = emit (Print (ustr ''Searching for USB scale...'')) w
      in if os_name w0 = ustr ''nt'' then scan_ports windows_ports w0
         else (case listdir_dev w0 of
                 Inl e \<Rightarrow> (Inl e, w0)
               | Inr entries \<Rightarrow> scan_ports (posix_ports entries) w0))"

section \<open>JSON values\<close>

text \<open>
  What \<open>json\<close> reads and writes. A Python \<open>dict\<close> is the list of its items in insertion
  order, with distinct keys.
\<close>

datatype json =
    JNull | JBool bool | JInt int | JFloat pyfloat | JStr pystr
  | JArr "json list" | JObj "(pystr \<times> json) list"

definition json_of_weight :: "pyfloat option \<Rightarrow> json" where
  "json_of_weight x = (case x of None \<Rightarrow> JNull | Some v \<Rightarrow> JFloat v)"

definition json_of_unit :: "pystr option \<Rightarrow> json" where
  "json_of_unit x = (case x of None \<Rightarrow> JNull | Some v \<Rightarrow> JStr v)"

section \<open>The reading service and its endpoint: \<open>read_usb_scale_data\<close>, \<open>read_scale\<close>\<close>

text \<open>
  The function returns a dictionary and a status code, or raises: the call of
  \<open>find_usb_scale\<close> stands before the \<open>try\<close>, so what it raises is not handled here.
\<close>

type_synonym response = "(pystr \<times> json) list \<times> nat"

definition read_usb_scale_data :: "world \<Rightarrow> (exn + response) \<times> world" where
  "read_usb_scale_data w =
     (case find_usb_scale w of
        (Inl e, w1) \<Rightarrow> (Inl e, w1)
      | (Inr None, w1) \<Rightarrow>
          (Inr ([(ustr ''error'', JStr (ustr ''USB scale not found''))], 404), w1)
      | (Inr (Some scale), w1) \<Rightarrow>
          (case readline_text scale w1 of
             (Inl e, w2) \<Rightarrow>
               (Inr ([(ustr ''error'', JStr (ustr ''Error reading scale: '' @ exn_str e))], 500), w2)
           | (Inr data, w2) \<Rightarrow>
               (case parse_scale_data data of
                  (weight, u) \<Rightarrow>
                    if weight \<noteq> None
                    then (Inr ([(ustr ''weight'', json_of_weight weight),
                                (ustr ''unit'', json_of_unit u)], 200), w2)
                    else (Inr ([(ustr ''error'',
                                 JStr (ustr ''Failed to parse weight from scale data''))], 500),
                          w2))))"

text \<open>
  The view function of \<open>GET /read-scale\<close> hands the dictionary to \<open>jsonify\<close> and returns it
  with the status. An exception that leaves it (\<open>Inl\<close>) is answered by the web framework
  with its own error page, not with a body of this program.
\<close>

definition read_scale :: "world \<Rightarrow> (exn + response) \<times> world" where
  "read_scale w =
     (case read_usb_scale_data w of
        (Inl e, w') \<Rightarrow> (Inl e, w')
      | (Inr (result, status), w') \<Rightarrow> (Inr (result, status), w'))"

section \<open>The tunnel information provider: \<open>get_ngrok_url\<close>\<close>

text \<open>
  What the interpreter does with a value of the wrong type: the errors of Python 3.11,
  with the name of the type in their text.
\<close>

definition type_name :: "json \<Rightarrow> pystr" where
  "type_name x =
     ustr (case x of
             JNull \<Rightarrow> ''NoneType'' | JBool _ \<Rightarrow> ''bool'' | JInt _ \<Rightarrow> ''int''
           | JFloat _ \<Rightarrow> ''float'' | JStr _ \<Rightarrow> ''str'' | JArr _ \<Rightarrow> ''list''
           | JObj _ \<Rightarrow> ''dict'')"

definition no_attribute :: "json \<Rightarrow> string \<Rightarrow> exn" where
  "no_attribute x attr =
     Exn AttributeError
       ([39] @ type_name x @ [39] @ ustr '' object has no attribute '' @ [39] @ ustr attr @ [39])"

definition not_iterable :: "json \<Rightarrow> exn" where
  "not_iterable x = Exn TypeError ([39] @ type_name x @ [39] @ ustr '' object is not iterable'')"

definition not_a_container :: "json \<Rightarrow> exn" where
  "not_a_container x =
     Exn TypeError (ustr ''argument of type '' @ [39] @ type_name x @ [39] @ ustr '' is not iterable'')"

text \<open>\<open>x.get(key, default)\<close>: only a \<open>dict\<close> has the method.\<close>

definition dict_get :: "json \<Rightarrow> pystr \<Rightarrow> json \<Rightarrow> exn + json" where
  "dict_get x key dflt =
     (case x of
        JObj items \<Rightarrow> Inr (case map_of items key of None \<Rightarrow> dflt | Some v \<Rightarrow> v)
      | _ \<Rightarrow> Inl (no_attribute x ''get''))"

text \<open>
  The values that \<open>for tunnel in x\<close> runs through: the elements of a list, the
  characters of a \<open>str\<close>, the keys of a \<open>dict\<close>; nothing else can be iterated.
\<close>

definition py_iter :: "json \<Rightarrow> exn + json list" where
  "py_iter x =
     (case x of
        JArr xs \<Rightarrow> Inr xs
      | JStr s \<Rightarrow> Inr (map (\<lambda>c. JStr [c]) s)
      | JObj items \<Rightarrow> Inr (map (\<lambda>item. JStr (fst item)) items)
      | _ \<Rightarrow> Inl (not_iterable x))"

text \<open>
  \<open>needle in x\<close> for a \<open>str\<close> needle: a substring test on a \<open>str\<close>, membership in a list
  and among the keys of a \<open>dict\<close>.
\<close>

definition py_in :: "pystr \<Rightarrow> json \<Rightarrow> exn + bool" where
  "py_in needle x =
     (case x of
        JStr s \<Rightarrow> Inr (sublist needle s)
      | JArr xs \<Rightarrow> Inr (JStr needle \<in> set xs)
      | JObj items \<Rightarrow> Inr (needle \<in> set (map fst items))
      | _ \<Rightarrow> Inl (not_a_container x))"

text \<open>
  \<open>s.split(sep)\<close> with a separator: the pieces between the occurrences of \<open>sep\<close>, found
  from left to right. (Python refuses the empty separator; the source passes \<open>"//"\<close> and
  \<open>"."\<close>.) The result is never the empty list, so its first and its last piece exist.
\<close>

function py_split_acc :: "pystr \<Rightarrow> pystr \<Rightarrow> pystr \<Rightarrow> pystr list" where
  "py_split_acc sep acc [] = [acc]"
| "py_split_acc sep acc (c # cs) =
     (if sep \<noteq> [] \<and> prefix sep (c # cs)
      then acc # py_split_acc sep [] (drop (length sep) (c # cs))
      else py_split_acc sep (acc @ [c]) cs)"
  by pat_completeness auto
termination
  by (relation "measure (\<lambda>(sep, acc, s). length s)") auto

definition py_split :: "pystr \<Rightarrow> pystr \<Rightarrow> pystr list" where
  "py_split sep s = py_split_acc sep [] s"

text \<open>\<open>full_url.split("//")[-1].split(".")[0]\<close>: only a \<open>str\<close> has the method \<open>split\<close>.\<close>

definition shorten :: "json \<Rightarrow> exn + pystr" where
  "shorten full_url =
     (case full_url of
        JStr s \<Rightarrow> Inr (hd (py_split (ustr ''.'') (last (py_split (ustr ''//'') s))))
      | _ \<Rightarrow> Inl (no_attribute full_url ''split''))"

text \<open>
  The loop over the listed tunnels: \<open>Inr (Some d)\<close> is \<open>return d\<close> from inside the loop,
  \<open>Inr None\<close> the end of the loop. \<open>tunnel["public_url"]\<close> is evaluated only after \<open>get\<close>
  has succeeded on the same \<open>tunnel\<close>, that is on a \<open>dict\<close>.
\<close>

fun scan_tunnels :: "json list \<Rightarrow> exn + (pystr \<times> json) list option" where
  "scan_tunnels [] = Inr None"
| "scan_tunnels (tunnel # rest) =
     (case dict_get tunnel (ustr ''public_url'') (JStr []) of
        Inl e \<Rightarrow> Inl e
      | Inr url \<Rightarrow>
          (case py_in (ustr ''https'') url of
             Inl e \<Rightarrow> Inl e
           | Inr False \<Rightarrow> scan_tunnels rest
           | Inr True \<Rightarrow>
               (case (case tunnel of
                        JObj items \<Rightarrow>
                          (case map_of items (ustr ''public_url'') of
                             None \<Rightarrow> Inl (Exn KeyError ([39] @ ustr ''public_url'' @ [39]))
                           | Some v \<Rightarrow> Inr v)
                      | _ \<Rightarrow> Inl (no_attribute tunnel ''get'')) of
                  Inl e \<Rightarrow> Inl e
                | Inr full_url \<Rightarrow>
                    (case shorten full_url of
                       Inl e \<Rightarrow> Inl e
                     | Inr label \<Rightarrow>
                         Inr (Some [(ustr ''url'', JStr label),
                                    (ustr ''status'', JStr (ustr ''connected''))])))))"

text \<open>
  The answer of the tunnel manager to \<open>requests.get("http://127.0.0.1:4040/api/tunnels",
  timeout=2)\<close>: the exception raised, or a response with its status code and the outcome
  of \<open>response.json()\<close>.
\<close>

record http_response =
  status_code :: nat
  json_body :: "exn + json"

definition not_found :: "(pystr \<times> json) list" where
  "not_found = [(ustr ''url'', JStr (ustr ''Not found'')), (ustr ''status'', JStr (ustr ''not_found''))]"

definition offline :: "(pystr \<times> json) list" where
  "offline = [(ustr ''url'', JStr (ustr ''Not available'')), (ustr ''status'', JStr (ustr ''offline''))]"

text \<open>The body of the \<open>try\<close>, and the function with its handler for \<open>RequestException\<close>.\<close>

definition get_ngrok_url_try :: "exn + http_response \<Rightarrow> exn + (pystr \<times> json) list" where
  "get_ngrok_url_try got =
     (case got of
        Inl e \<Rightarrow> Inl e
      | Inr response \<Rightarrow>
          if status_code response = 200 then
            (case json_body response of
               Inl e \<Rightarrow> Inl e
             | Inr tunnels \<Rightarrow>
                 (case dict_get tunnels (ustr ''tunnels'') (JArr []) of
                    Inl e \<Rightarrow> Inl e
                  | Inr listed \<Rightarrow>
                      (case py_iter listed of
                         Inl e \<Rightarrow> Inl e
                       | Inr items \<Rightarrow>
                           (case scan_tunnels items of
                              Inl e \<Rightarrow> Inl e
                            | Inr (Some result) \<Rightarrow> Inr result
                            | Inr None \<Rightarrow> Inr not_found))))
          else Inr not_found)"

definition get_ngrok_url :: "exn + http_response \<Rightarrow> exn + (pystr \<times> json) list" where
  "get_ngrok_url got =
     (case get_ngrok_url_try got of
        Inl e \<Rightarrow> if is_RequestException e then Inr offline else Inl e
      | Inr result \<Rightarrow> Inr result)"

section \<open>Notions used to state the properties\<close>

text \<open>
  What one candidate does when it is probed, read from the host before the probe. A
  candidate is \<open>probe_ok\<close> when it opens, reports itself open, takes the probe token and
  gives back a line that decodes (whatever the line says, and also no line at all); it is
  \<open>probe_skipped\<close> when the first of these steps that fails raises a serial exception, or
  when it does not report itself open.
\<close>

definition probe_ok :: "world \<Rightarrow> pystr \<Rightarrow> bool" where
  "probe_ok w name =
     (serial_open w name = None \<and> serial_is_open w name \<and> serial_write w name = None \<and>
      (case serial_lines w name of
         [] \<Rightarrow> True
       | r # _ \<Rightarrow> (case r of Inl _ \<Rightarrow> False | Inr _ \<Rightarrow> True)))"

definition probe_skipped :: "world \<Rightarrow> pystr \<Rightarrow> bool" where
  "probe_skipped w name =
     (case serial_open w name of
        Some e \<Rightarrow> is_SerialException e
      | None \<Rightarrow>
          if serial_is_open w name then
            (case serial_write w name of
               Some e \<Rightarrow> is_SerialException e
             | None \<Rightarrow>
                 (case serial_lines w name of
                    [] \<Rightarrow> False
                  | r # _ \<Rightarrow> (case r of Inl e \<Rightarrow> is_SerialException e | Inr _ \<Rightarrow> False)))
          else True)"

text \<open>A candidate that cannot be opened: the constructor raises a serial exception.\<close>

definition open_fails :: "world \<Rightarrow> pystr \<Rightarrow> bool" where
  "open_fails w name =
     (case serial_open w name of Some e \<Rightarrow> is_SerialException e | None \<Rightarrow> False)"

text \<open>
  \<open>find_usb_scale\<close> prints its search line first thing, once per call, and nothing else
  prints that line: the number of these lines in the trace is the number of discoveries
  run so far.
\<close>

definition searches :: "world \<Rightarrow> nat" where
  "searches w = length (filter (\<lambda>ev. ev = Print (ustr ''Searching for USB scale...'')) (trace w))"

text \<open>
  The Reading Outcome of the specification and its table of responses (section 4.5),
  written from the specification's words, to be compared with what the source returns.
  \<open>reading_outcome\<close> names the outcome of a call by the branch the source takes: no
  device found, a read or decoding that raised, a line that did not parse, a reading.
\<close>

datatype outcome = Success pyfloat pystr | DeviceNotFound | ParseFailure | IOError pystr

definition http_of_outcome :: "outcome \<Rightarrow> response" where
  "http_of_outcome out =
     (case out of
        Success weight u \<Rightarrow> ([(ustr ''weight'', JFloat weight), (ustr ''unit'', JStr u)], 200)
      | DeviceNotFound \<Rightarrow> ([(ustr ''error'', JStr (ustr ''USB scale not found''))], 404)
      | ParseFailure \<Rightarrow>
          ([(ustr ''error'', JStr (ustr ''Failed to parse weight from scale data''))], 500)
      | IOError detail \<Rightarrow>
          ([(ustr ''error'', JStr (ustr ''Error reading scale: '' @ detail))], 500))"

definition reading_outcome :: "world \<Rightarrow> exn + outcome" where
  "reading_outcome w =
     (case find_usb_scale w of
        (Inl e, w1) \<Rightarrow> Inl e
      | (Inr None, w1) \<Rightarrow> Inr DeviceNotFound
      | (Inr (Some scale), w1) \<Rightarrow>
          (case readline_text scale w1 of
             (Inl e, w2) \<Rightarrow> Inr (IOError (exn_str e))
           | (Inr data, w2) \<Rightarrow>
               (case parse_scale_data data of
                  (Some weight, Some u) \<Rightarrow> Inr (Success weight u)
                | _ \<Rightarrow> Inr ParseFailure)))"

text \<open>
  The line that the next read on a port returns (the empty line when nothing is pending),
  and the outcome that the source makes of a line read from the scale.
\<close>

definition next_line :: "world \<Rightarrow> pystr \<Rightarrow> exn + pystr" where
  "next_line w name = (case serial_lines w name of [] \<Rightarrow> Inr [] | r # _ \<Rightarrow> r)"

definition line_outcome :: "exn + pystr \<Rightarrow> outcome" where
  "line_outcome r =
     (case r of
        Inl e \<Rightarrow> IOError (exn_str e)
      | Inr line \<Rightarrow>
          (case parse_scale_data (py_strip line) of
             (Some weight, Some u) \<Rightarrow> Success weight u
           | _ \<Rightarrow> ParseFailure))"

text \<open>
  The expected shape of the manager's answer: an object whose \<open>tunnels\<close>, when present, is
  a list of objects whose \<open>public_url\<close>, when present, is a text. \<open>listed_urls\<close> gives the
  public URLs of such an answer in order (the empty text for a tunnel without one), and
  \<open>None\<close> for an answer of any other shape. A URL is secure when its scheme is \<open>https\<close>.
  \<open>subdomain\<close> is the label that the source cuts out of a URL.
\<close>

definition tunnel_url :: "json \<Rightarrow> pystr option" where
  "tunnel_url tunnel =
     (case tunnel of
        JObj items \<Rightarrow>
          (case map_of items (ustr ''public_url'') of
             None \<Rightarrow> Some []
           | Some v \<Rightarrow> (case v of JStr s \<Rightarrow> Some s | _ \<Rightarrow> None))
      | _ \<Rightarrow> None)"

definition listed_urls :: "json \<Rightarrow> pystr list option" where
  "listed_urls body =
     (case body of
        JObj items \<Rightarrow>
          (case map_of items (ustr ''tunnels'') of
             None \<Rightarrow> Some []
           | Some v \<Rightarrow>
               (case v of
                  JArr ts \<Rightarrow> those (map tunnel_url ts)
                | _ \<Rightarrow> None))
      | _ \<Rightarrow> None)"

definition secure_url :: "pystr \<Rightarrow> bool" where
  "secure_url url = prefix (ustr ''https://'') url"

definition subdomain :: "pystr \<Rightarrow> pystr" where
  "subdomain url = hd (py_split (ustr ''.'') (last (py_split (ustr ''//'') url)))"

definition connected_to :: "pystr \<Rightarrow> (pystr \<times> json) list" where
  "connected_to label = [(ustr ''url'', JStr label), (ustr ''status'', JStr (ustr ''connected''))]"

text \<open>
  A host of the device-file family for the examples: the listing of \<open>/dev\<close>, what a write
  to each port does and the lines each port has pending; every port opens.
\<close>

definition host ::
  "pystr list \<Rightarrow> (pystr \<Rightarrow> exn option) \<Rightarrow> (pystr \<Rightarrow> (exn + pystr) list) \<Rightarrow> world" where
  "host entries wr pending =
     \<lparr>os_name = ustr ''posix'', listdir_dev = Inr entries, serial_open = (\<lambda>_. None),
      serial_is_open = (\<lambda>_. True), serial_write = wr, serial_lines = pending, trace = []\<rparr>"

text \<open>
  The hosts of the examples. On \<open>host_write_fails\<close> the first serial candidate opens but
  its write raises a serial exception, and the second answers; on \<open>host_undecodable\<close> the
  first candidate answers the probe with the byte \<open>0xff\<close>, which is not UTF-8, so that
  decoding raises \<open>decode_error\<close>; on
  \<open>host_parse_failure\<close> the one scale sends \<open>ERROR\<close> first and a weight later; on
  \<open>host_read_fails\<close> the scale is unplugged after the probe; \<open>host_no_ports\<close> has no
  serial device.
\<close>

definition host_write_fails :: world where
  "host_write_fails =
     host [ustr ''sda'', ustr ''ttyUSB0'', ustr ''ttyACM0'']
       (\<lambda>name. if name = ustr ''/dev/ttyUSB0''
                then Some (Exn SerialException (ustr ''write failed'')) else None)
       (\<lambda>name. [Inr (ustr ''OK''), Inr (ustr ''12.5g'')])"

definition decode_error :: exn where
  "decode_error =
     Exn UnicodeDecodeError
       ([39] @ ustr ''utf-8'' @ [39] @ ustr '' codec can'' @ [39] @
        ustr ''t decode byte 0xff in position 0: invalid start byte'')"

definition host_undecodable :: world where
  "host_undecodable =
     host [ustr ''ttyUSB0'', ustr ''ttyACM0'']
       (\<lambda>name. None)
       (\<lambda>name. if name = ustr ''/dev/ttyUSB0''
                then [Inl decode_error]
                else [Inr (ustr ''OK''), Inr (ustr ''12.5g'')])"

definition host_parse_failure :: world where
  "host_parse_failure =
     host [ustr ''ttyUSB0'']
       (\<lambda>name. None)
       (\<lambda>name. [Inr (ustr ''OK''), Inr (ustr ''ERROR''), Inr (ustr ''OK''), Inr (ustr ''12.5g'')])"

definition host_read_fails :: world where
  "host_read_fails =
     host [ustr ''ttyUSB0'']
       (\<lambda>name. None)
       (\<lambda>name. [Inr (ustr ''OK''), Inl (Exn SerialException (ustr ''device disconnected''))])"

definition host_no_ports :: world where
  "host_no_ports = host [ustr ''sda''] (\<lambda>name. None) (\<lambda>name. [])"

text \<open>
  Two hosts of the numbered-port family, where \<open>/dev\<close> is not listed: on \<open>host_com2\<close> only
  \<open>COM2\<close> opens, on \<open>host_no_com\<close> no port does.
\<close>

definition host_windows :: "(pystr \<Rightarrow> exn option) \<Rightarrow> world" where
  "host_windows opening =
     \<lparr>os_name = ustr ''nt'', listdir_dev = Inl (Exn OSError (ustr ''/dev'')),
      serial_open = opening, serial_is_open = (\<lambda>_. True), serial_write = (\<lambda>_. None),
      serial_lines = (\<lambda>_. []), trace = []\<rparr>"

definition host_com2 :: world where
  "host_com2 =
     host_windows (\<lambda>name. if name = ustr ''COM2'' then None
                           else Some (Exn SerialException (ustr ''could not open port'')))"

definition host_no_com :: world where
  "host_no_com = host_windows (\<lambda>name. Some (Exn SerialException (ustr ''could not open port'')))"

text \<open>
  Answers of the tunnel manager for the examples: status 200 with a JSON body;
  \<open>tunnels_of\<close> is a body of the shape the manager sends, listing the given public URLs.
\<close>

definition answer :: "json \<Rightarrow> exn + http_response" where
  "answer body = Inr \<lparr>status_code = 200, json_body = Inr body\<rparr>"

definition tunnels_of :: "string list \<Rightarrow> json" where
  "tunnels_of urls =
     JObj [(ustr ''tunnels'',
            JArr (map (\<lambda>url. JObj [(ustr ''name'', JStr (ustr ''command_line'')),
                                     (ustr ''public_url'', JStr (ustr url))]) urls)),
           (ustr ''uri'', JStr (ustr ''/api/tunnels''))]"

section \<open>Properties of the frame parser\<close>

lemma ascii_digit_uni_decimal: "ascii_digit c \<Longrightarrow> uni_decimal c"
  by (simp add: ascii_digit_def uni_decimal_def nd_zeros_def)

lemma weight_char_not_space: "weight_char c \<Longrightarrow> \<not> uni_space c"
  by (auto simp: weight_char_def ascii_digit_def uni_space_def)

lemma dropWhile_none: "list_all (\<lambda>c. \<not> P c) s \<Longrightarrow> dropWhile P s = s"
  by (cases s) simp_all

lemma py_strip_weight_chars: "list_all weight_char s \<Longrightarrow> py_strip s = s"
proof -
  assume a: "list_all weight_char s"
  then have n: "list_all (\<lambda>c. \<not> uni_space c) s"
    by (simp add: list_all_iff weight_char_not_space)
  then have "list_all (\<lambda>c. \<not> uni_space c) (rev s)"
    by (simp add: list_all_iff)
  with n show ?thesis
    by (simp add: py_strip_def dropWhile_none)
qed

lemma list_all_keep: "list_all weight_char (keep_weight_chars s)"
  by (simp add: keep_weight_chars_def list_all_iff)

lemma clean_eq: "clean raw = keep_weight_chars (strip_leading_nondigits raw)"
  by (simp add: clean_def py_strip_weight_chars list_all_keep)

lemma list_all_clean: "list_all weight_char (clean raw)"
  by (simp add: clean_eq list_all_keep)

lemma match_unit_cases:
  "match_unit r = None \<or> match_unit r = Some (ustr ''g'') \<or> match_unit r = Some (ustr ''kg'')
     \<or> match_unit r = Some (ustr ''lb'')"
  by (simp add: match_unit_def)

lemma match_unit_weight_chars:
  "list_all weight_char r \<Longrightarrow> match_unit r = None \<or> match_unit r = Some (ustr ''g'')"
  by (cases r) (auto simp: match_unit_def ustr_def weight_char_def ascii_digit_def)

lemma match_fraction_rest: "set (snd (match_fraction s)) \<subseteq> set s"
  by (cases s) (auto simp: match_fraction_def dest: set_dropWhileD)

lemma re_match_weight_None: "re_match_weight s = None \<longleftrightarrow> takeWhile ascii_digit s = []"
  by (simp add: re_match_weight_def Let_def split: prod.splits)

lemma re_match_weight_unit:
  assumes "list_all weight_char s" "re_match_weight s = Some (g1, g2)"
  shows "g2 = None \<or> g2 = Some (ustr ''g'')"
proof -
  obtain fpart rest where mf: "match_fraction (dropWhile ascii_digit s) = (fpart, rest)"
    by (cases "match_fraction (dropWhile ascii_digit s)")
  have "set rest \<subseteq> set s"
    using match_fraction_rest [of "dropWhile ascii_digit s"] mf
    by (auto dest: set_dropWhileD)
  then have "list_all weight_char (dropWhile uni_space rest)"
    using assms(1) by (auto simp: list_all_iff dest: set_dropWhileD)
  then have "match_unit (dropWhile uni_space rest) = None
      \<or> match_unit (dropWhile uni_space rest) = Some (ustr ''g'')"
    by (rule match_unit_weight_chars)
  moreover have "g2 = match_unit (dropWhile uni_space rest)"
    using assms(2) mf by (simp add: re_match_weight_def Let_def split: if_splits)
  ultimately show ?thesis by simp
qed

lemma takeWhile_digits_stop:
  "list_all ascii_digit ds \<Longrightarrow> (r = [] \<or> \<not> ascii_digit (hd r)) \<Longrightarrow> takeWhile ascii_digit (ds @ r) = ds"
  by (cases r) (auto simp: list_all_iff takeWhile_append)

lemma dropWhile_digits_stop:
  "list_all ascii_digit ds \<Longrightarrow> (r = [] \<or> \<not> ascii_digit (hd r)) \<Longrightarrow> dropWhile ascii_digit (ds @ r) = r"
  by (cases r) (auto simp: list_all_iff dropWhile_append)

lemma py_float_int:
  assumes "ds \<noteq> []" "list_all ascii_digit ds"
  shows "py_float ds = Some (binary64 (digits_value ds) 1)"
proof -
  have t: "takeWhile ascii_digit ds = ds"
    using assms(2) by (simp add: list_all_iff)
  have d: "dropWhile ascii_digit ds = []"
    using assms(2) by (simp add: list_all_iff)
  show ?thesis
    using assms(1) by (simp add: py_float_def t d)
qed

lemma py_float_frac:
  "ds \<noteq> [] \<Longrightarrow> list_all ascii_digit ds \<Longrightarrow> fs \<noteq> [] \<Longrightarrow> list_all ascii_digit fs \<Longrightarrow>
   py_float (ds @ 46 # fs) = Some (binary64 (digits_value (ds @ fs)) (10 ^ length fs))"
  using takeWhile_digits_stop [of ds "46 # fs"] dropWhile_digits_stop [of ds "46 # fs"]
  by (simp add: py_float_def ascii_digit_def)

lemma list_all_takeWhile: "list_all P (takeWhile P s)"
  by (induction s) simp_all

lemma match_fraction_shape:
  "match_fraction s = (fpart, rest) \<Longrightarrow>
     fpart = [] \<or> (\<exists>fs. fpart = 46 # fs \<and> fs \<noteq> [] \<and> list_all ascii_digit fs)"
  by (cases s) (auto simp: match_fraction_def list_all_takeWhile split: if_splits)

lemma re_match_weight_group1:
  assumes "re_match_weight s = Some (g1, g2)"
  shows "\<exists>ds fpart. g1 = ds @ fpart \<and> ds \<noteq> [] \<and> list_all ascii_digit ds \<and>
           (fpart = [] \<or> (\<exists>fs. fpart = 46 # fs \<and> fs \<noteq> [] \<and> list_all ascii_digit fs))"
proof -
  obtain fpart rest where mf: "match_fraction (dropWhile ascii_digit s) = (fpart, rest)"
    by (cases "match_fraction (dropWhile ascii_digit s)")
  from assms mf have g: "g1 = takeWhile ascii_digit s @ fpart" and ne: "takeWhile ascii_digit s \<noteq> []"
    by (simp_all add: re_match_weight_def Let_def split: if_splits)
  show ?thesis
    using g ne match_fraction_shape [OF mf] list_all_takeWhile [of ascii_digit s] by blast
qed

lemma py_float_group1:
  assumes "re_match_weight s = Some (g1, g2)"
  shows "py_float g1 \<noteq> None"
  using re_match_weight_group1 [OF assms]
  by (auto simp: py_float_int py_float_frac)


lemma parse_success_unit:
  assumes "parse_scale_data raw = (Some w, u)"
  shows "u = Some (ustr ''g'')"
proof -
  from assms obtain g1 g2 where m: "re_match_weight (clean raw) = Some (g1, g2)"
    by (auto simp: parse_scale_data_def split: option.splits)
  have "g2 = None \<or> g2 = Some (ustr ''g'')"
    using list_all_clean m by (rule re_match_weight_unit)
  with assms m show ?thesis
    by (auto simp: parse_scale_data_def ustr_def split: option.splits)
qed

text \<open>
  Claim C9. For every input the parser's result is all or nothing: it is the failure
  pair \<open>(None, None)\<close>, or a weight together with a unit that is not the empty text. It
  never returns a weight without a unit, or a unit without a weight.
\<close>
theorem parse_all_or_nothing:
  "parse_scale_data raw = (None, None) \<or>
   (\<exists>w u. parse_scale_data raw = (Some w, Some u) \<and> u \<noteq> [])"
  by (auto simp: parse_scale_data_def ustr_def split: option.splits)

text \<open>
  Claim C5. The cleaned text holds none of the letters \<open>k\<close> (107), \<open>l\<close> (108) and \<open>b\<close>
  (98), since the character filter runs before the unit is matched; so whenever the
  parser returns a weight, its unit is \<open>g\<close>, and a match without a unit token gives the
  unit \<open>g\<close> as well.
\<close>
theorem parse_unit_is_g:
  "list_all (\<lambda>c. c \<noteq> 107 \<and> c \<noteq> 108 \<and> c \<noteq> 98) (clean raw) \<and>
   (\<forall>w u. parse_scale_data raw = (Some w, u) \<longrightarrow> u = Some (ustr ''g'')) \<and>
   (\<forall>g1. re_match_weight (clean raw) = Some (g1, None) \<longrightarrow>
      snd (parse_scale_data raw) = Some (ustr ''g''))"
proof (intro conjI allI impI)
  show "list_all (\<lambda>c. c \<noteq> 107 \<and> c \<noteq> 108 \<and> c \<noteq> 98) (clean raw)"
    using list_all_clean [of raw]
    by (auto simp: list_all_iff weight_char_def ascii_digit_def)
next
  fix w u assume "parse_scale_data raw = (Some w, u)"
  then show "u = Some (ustr ''g'')" by (rule parse_success_unit)
next
  fix g1 assume m: "re_match_weight (clean raw) = Some (g1, None)"
  with py_float_group1 [OF m] show "snd (parse_scale_data raw) = Some (ustr ''g'')"
    by (auto simp: parse_scale_data_def)
qed

lemma takeWhile_no_digit: "list_all (\<lambda>c. \<not> ascii_digit c) s \<Longrightarrow> takeWhile ascii_digit s = []"
  by (cases s) simp_all

text \<open>
  Claim C6. The parser returns a weight only when the cleaned text matches the numeric
  pattern, and the weight is then the value of the numeral that was matched; an input
  without any of the digits \<open>0\<close> to \<open>9\<close> (so also an input without any decimal digit of
  Unicode) gives the failure pair.
\<close>
theorem parse_only_on_match:
  "(fst (parse_scale_data raw) \<noteq> None \<longrightarrow>
      (\<exists>g1 g2. re_match_weight (clean raw) = Some (g1, g2) \<and>
         fst (parse_scale_data raw) = py_float g1)) \<and>
   (list_all (\<lambda>c. \<not> ascii_digit c) raw \<longrightarrow> parse_scale_data raw = (None, None))"
proof (intro conjI impI)
  assume "fst (parse_scale_data raw) \<noteq> None"
  then show "\<exists>g1 g2. re_match_weight (clean raw) = Some (g1, g2) \<and>
      fst (parse_scale_data raw) = py_float g1"
    by (auto simp: parse_scale_data_def split: option.splits)
next
  assume a: "list_all (\<lambda>c. \<not> ascii_digit c) raw"
  have "set (clean raw) \<subseteq> set raw"
    by (auto simp: clean_eq keep_weight_chars_def strip_leading_nondigits_def dest: set_dropWhileD)
  with a have "list_all (\<lambda>c. \<not> ascii_digit c) (clean raw)"
    by (auto simp: list_all_iff)
  then have "re_match_weight (clean raw) = None"
    by (simp add: re_match_weight_None takeWhile_no_digit)
  then show "parse_scale_data raw = (None, None)"
    by (simp add: parse_scale_data_def)
qed

text \<open>
  Claim C10. The pattern is matched as a prefix: whenever the cleaned text begins with
  a digit the parser returns a weight with unit \<open>g\<close>, whatever follows the matched part.
  The witness is the input \<open>12.3.4g\<close>, which cleans to itself and gives the float of
  12.3 and \<open>g\<close>.
\<close>
theorem parse_prefix_match:
  assumes "clean raw = c # r" "ascii_digit c"
  shows "\<exists>w. parse_scale_data raw = (Some w, Some (ustr ''g''))"
proof -
  have "re_match_weight (clean raw) \<noteq> None"
    using assms by (simp add: re_match_weight_None)
  then obtain g1 g2 where m: "re_match_weight (clean raw) = Some (g1, g2)"
    by auto
  from py_float_group1 [OF m] obtain w where f: "py_float g1 = Some w"
    by auto
  from m f obtain u where p: "parse_scale_data raw = (Some w, u)"
    by (simp add: parse_scale_data_def)
  from parse_success_unit [OF p] p show ?thesis by auto
qed

lemma strip_leading_stop:
  "list_all (\<lambda>c. \<not> uni_decimal c) pre \<Longrightarrow> ascii_digit d \<Longrightarrow>
   strip_leading_nondigits (pre @ d # r) = d # r"
  by (simp add: strip_leading_nondigits_def dropWhile_append3 list_all_iff ascii_digit_uni_decimal
      dropWhile_append)

lemma keep_numeral_unit:
  assumes "list_all ascii_digit ds" "list_all weight_char fp"
    "list_all (\<lambda>c. \<not> weight_char c) junk"
  shows "keep_weight_chars (ds @ fp @ junk @ ustr ''g'') = ds @ fp @ ustr ''g''"
proof -
  have "filter weight_char ds = ds"
    using assms(1) by (simp add: list_all_iff weight_char_def)
  moreover have "filter weight_char fp = fp"
    using assms(2) by (simp add: list_all_iff)
  moreover have "filter weight_char junk = []"
    using assms(3) by (simp add: list_all_iff)
  ultimately show ?thesis
    by (simp add: keep_weight_chars_def ustr_def weight_char_def)
qed

lemma clean_numeral_unit:
  assumes "list_all (\<lambda>c. \<not> uni_decimal c) pre" "ds \<noteq> []" "list_all ascii_digit ds"
    "list_all weight_char fp" "list_all (\<lambda>c. \<not> weight_char c) junk"
  shows "clean (pre @ ds @ fp @ junk @ ustr ''g'') = ds @ fp @ ustr ''g''"
proof -
  obtain d ds' where ds: "ds = d # ds'"
    using assms(2) by (cases ds) auto
  then have d: "ascii_digit d"
    using assms(3) by simp
  have "strip_leading_nondigits (pre @ ds @ fp @ junk @ ustr ''g'') = ds @ fp @ junk @ ustr ''g''"
    using strip_leading_stop [OF assms(1) d, of "ds' @ fp @ junk @ ustr ''g''"] ds by simp
  then show ?thesis
    using keep_numeral_unit [OF assms(3,4,5)] by (simp add: clean_eq)
qed

lemma match_numeral_unit_int:
  assumes "ds \<noteq> []" "list_all ascii_digit ds"
  shows "re_match_weight (ds @ ustr ''g'') = Some (ds, Some (ustr ''g''))"
proof -
  have t: "takeWhile ascii_digit (ds @ ustr ''g'') = ds"
    using assms(2) by (intro takeWhile_digits_stop) (simp_all add: ustr_def ascii_digit_def)
  have d: "dropWhile ascii_digit (ds @ ustr ''g'') = ustr ''g''"
    using assms(2) by (intro dropWhile_digits_stop) (simp_all add: ustr_def ascii_digit_def)
  have f: "match_fraction (ustr ''g'') = ([], ustr ''g'')"
    by (simp add: match_fraction_def ustr_def)
  have u: "match_unit (dropWhile uni_space (ustr ''g'')) = Some (ustr ''g'')"
    by (simp add: match_unit_def ustr_def uni_space_def)
  show ?thesis
    using assms(1) by (simp add: re_match_weight_def t d f u)
qed

lemma match_numeral_unit_frac:
  assumes "ds \<noteq> []" "list_all ascii_digit ds" "fs \<noteq> []" "list_all ascii_digit fs"
  shows "re_match_weight (ds @ (46 # fs) @ ustr ''g'') = Some (ds @ 46 # fs, Some (ustr ''g''))"
proof -
  have t: "takeWhile ascii_digit (ds @ 46 # fs @ ustr ''g'') = ds"
    using assms(2) by (intro takeWhile_digits_stop) (simp_all add: ascii_digit_def)
  have d: "dropWhile ascii_digit (ds @ 46 # fs @ ustr ''g'') = 46 # fs @ ustr ''g''"
    using assms(2) by (intro dropWhile_digits_stop) (simp_all add: ascii_digit_def)
  have t2: "takeWhile ascii_digit (fs @ ustr ''g'') = fs"
    using assms(4) by (intro takeWhile_digits_stop) (simp_all add: ustr_def ascii_digit_def)
  have d2: "dropWhile ascii_digit (fs @ ustr ''g'') = ustr ''g''"
    using assms(4) by (intro dropWhile_digits_stop) (simp_all add: ustr_def ascii_digit_def)
  have f: "match_fraction (46 # fs @ ustr ''g'') = (46 # fs, ustr ''g'')"
    using assms(3) by (simp add: match_fraction_def t2 d2)
  have u: "match_unit (dropWhile uni_space (ustr ''g'')) = Some (ustr ''g'')"
    by (simp add: match_unit_def ustr_def uni_space_def)
  show ?thesis
    using assms(1) by (simp add: re_match_weight_def t d f u)
qed

lemma parse_digits_g:
  assumes "list_all (\<lambda>c. \<not> uni_decimal c) pre" "ds \<noteq> []" "list_all ascii_digit ds"
    "list_all (\<lambda>c. \<not> weight_char c) junk"
  shows "parse_scale_data (pre @ ds @ junk @ ustr ''g'') =
           (Some (binary64 (digits_value ds) 1), Some (ustr ''g''))"
proof -
  have "clean (pre @ ds @ [] @ junk @ ustr ''g'') = ds @ [] @ ustr ''g''"
    using assms(1,2,3) _ assms(4) by (rule clean_numeral_unit) simp
  then show ?thesis
    using match_numeral_unit_int [OF assms(2,3)] py_float_int [OF assms(2,3)]
    by (simp add: parse_scale_data_def ustr_def)
qed

lemma parse_digits_point_g:
  assumes "list_all (\<lambda>c. \<not> uni_decimal c) pre" "ds \<noteq> []" "list_all ascii_digit ds"
    "fs \<noteq> []" "list_all ascii_digit fs" "list_all (\<lambda>c. \<not> weight_char c) junk"
  shows "parse_scale_data (pre @ ds @ ustr ''.'' @ fs @ junk @ ustr ''g'') =
           (Some (binary64 (digits_value (ds @ fs)) (10 ^ length fs)), Some (ustr ''g''))"
proof -
  have "list_all weight_char (46 # fs)"
    using assms(5) by (simp add: list_all_iff weight_char_def)
  with assms(1,2,3) have "clean (pre @ ds @ (46 # fs) @ junk @ ustr ''g'') = ds @ (46 # fs) @ ustr ''g''"
    using assms(6) by (rule clean_numeral_unit)
  then show ?thesis
    using match_numeral_unit_frac [OF assms(2,3,4,5)] py_float_frac [OF assms(2,3,4,5)]
    by (simp add: parse_scale_data_def ustr_def)
qed

text \<open>
  Claim C4, as amended. A line made of digits \<open>ds\<close>, optionally a point and digits \<open>fs\<close>,
  and a trailing \<open>g\<close>, behind any prefix \<open>pre\<close> without a decimal digit, parses to the float
  of its numeral, with unit \<open>g\<close>: the binary64 number nearest to the decimal number that
  the numeral denotes. Characters that the filter deletes (\<open>junk\<close>, such as the blank of
  \<open>45.0 g\<close>) may stand between the numeral and the \<open>g\<close>.
\<close>
theorem parse_numeral_g:
  assumes "list_all (\<lambda>c. \<not> uni_decimal c) pre" "ds \<noteq> []" "list_all ascii_digit ds"
    "list_all ascii_digit fs" "list_all (\<lambda>c. \<not> weight_char c) junk"
  shows "parse_scale_data (pre @ ds @ junk @ ustr ''g'') =
           (Some (binary64 (digits_value ds) 1), Some (ustr ''g'')) \<and>
         (fs \<noteq> [] \<longrightarrow>
            parse_scale_data (pre @ ds @ ustr ''.'' @ fs @ junk @ ustr ''g'') =
              (Some (binary64 (digits_value (ds @ fs)) (10 ^ length fs)), Some (ustr ''g'')))"
  using assms by (simp add: parse_digits_g parse_digits_point_g)

lemmas clean_eval = clean_def py_strip_def keep_weight_chars_def strip_leading_nondigits_def
  weight_char_def ascii_digit_def uni_space_def uni_decimal_def nd_zeros_def

lemmas match_eval = re_match_weight_def match_fraction_def match_unit_def ascii_digit_def
  uni_space_def

lemma floor_rat_numeral: "\<lfloor>(numeral a :: rat) / numeral b\<rfloor> = numeral a div numeral b"
  using floor_divide_of_int_eq [of "numeral a" "numeral b", where ?'a = rat] by simp

lemmas binary64_eval = binary64_def bit_length.simps pow2_def round_half_even_def Let_def
  floor_rat_numeral

lemmas float_eval = py_float_def digits_value_def ascii_digit_def binary64_eval

lemma parse_ERROR: "parse_scale_data (ustr ''ERROR'') = (None, None)"
proof -
  have c: "clean (ustr ''ERROR'') = []"
    by (simp add: ustr_def clean_eval)
  have m: "re_match_weight [] = None"
    by (simp add: match_eval)
  show ?thesis
    by (simp add: parse_scale_data_def c m)
qed

lemma fst_parse_5_kg: "fst (parse_scale_data (ustr ''5 kg'')) = Some (Float 5)"
proof -
  have c: "clean (ustr ''5 kg'') = ustr ''5g''"
    by (simp add: ustr_def clean_eval)
  have m: "re_match_weight (ustr ''5g'') = Some (ustr ''5'', Some (ustr ''g''))"
    by (simp add: ustr_def match_eval)
  have f: "py_float (ustr ''5'') = Some (Float 5)"
    by (simp add: ustr_def float_eval)
  show ?thesis
    by (simp add: parse_scale_data_def c m f)
qed

lemma clean_12_3_4g: "clean (ustr ''12.3.4g'') = ustr ''12.3.4g''"
  by (simp add: ustr_def clean_eval)

lemma binary64_12_3: "binary64 123 10 = Float (3462142213541069 / 281474976710656)"
  by (simp add: binary64_eval)

lemma fst_parse_12_3_4g: "fst (parse_scale_data (ustr ''12.3.4g'')) = Some (binary64 123 10)"
proof -
  have m: "re_match_weight (ustr ''12.3.4g'') = Some (ustr ''12.3'', None)"
    by (simp add: ustr_def match_eval)
  have f: "py_float (ustr ''12.3'') = Some (binary64 123 10)"
    by (simp add: ustr_def py_float_def digits_value_def ascii_digit_def)
  show ?thesis
    by (simp add: parse_scale_data_def clean_12_3_4g m f)
qed

theorem parse_all_or_nothing_witness:
  "parse_scale_data (ustr ''ERROR'') = (None, None) \<and>
   (\<exists>w u. parse_scale_data (ustr ''5 kg'') = (Some w, Some u) \<and> u \<noteq> [])"
  using parse_all_or_nothing [of "ustr ''5 kg''"] fst_parse_5_kg parse_ERROR
  by auto

theorem parse_unit_is_g_witness:
  "parse_scale_data (ustr ''5 kg'') = (Some (Float 5), Some (ustr ''g''))"
proof -
  obtain u where p: "parse_scale_data (ustr ''5 kg'') = (Some (Float 5), u)"
    using fst_parse_5_kg by (cases "parse_scale_data (ustr ''5 kg'')") auto
  with parse_unit_is_g [of "ustr ''5 kg''"] show ?thesis
    by simp
qed

theorem parse_only_on_match_witness:
  "list_all (\<lambda>c. \<not> ascii_digit c) (ustr ''ERROR'') \<and>
   parse_scale_data (ustr ''ERROR'') = (None, None) \<and>
   fst (parse_scale_data (ustr ''5 kg'')) \<noteq> None \<and>
   re_match_weight (clean (ustr ''5 kg'')) \<noteq> None"
  using parse_only_on_match [of "ustr ''ERROR''"] parse_only_on_match [of "ustr ''5 kg''"]
    fst_parse_5_kg
  by (auto simp: ustr_def ascii_digit_def)

theorem parse_prefix_match_witness:
  "clean (ustr ''12.3.4g'') = ustr ''12.3.4g'' \<and>
   parse_scale_data (ustr ''12.3.4g'') = (Some (binary64 123 10), Some (ustr ''g'')) \<and>
   binary64 123 10 = Float (3462142213541069 / 281474976710656)"
proof -
  have c: "clean (ustr ''12.3.4g'') = 49 # ustr ''2.3.4g''"
    using clean_12_3_4g by (simp add: ustr_def)
  have d: "ascii_digit 49"
    by (simp add: ascii_digit_def)
  from parse_prefix_match [OF c d] fst_parse_12_3_4g clean_12_3_4g binary64_12_3 show ?thesis
    by auto
qed

text \<open>
  The prefix of claim C4 is free of every decimal digit of Unicode, not only of \<open>0\<close> to
  \<open>9\<close>: the first substitution stops at such a digit, the second one deletes it, and what
  stood between it and the numeral stays. Behind the Arabic-Indic digit three (code point
  1635) and a point, \<open>12.5g\<close> does not parse.
\<close>

lemma parse_behind_other_digit: "parse_scale_data (1635 # ustr ''.12.5g'') = (None, None)"
proof -
  have c: "clean (1635 # ustr ''.12.5g'') = ustr ''.12.5g''"
    by (simp add: ustr_def clean_eval)
  have m: "re_match_weight (ustr ''.12.5g'') = None"
    by (simp add: ustr_def match_eval)
  show ?thesis
    by (simp add: parse_scale_data_def c m)
qed

theorem parse_numeral_g_witness:
  "parse_scale_data (ustr ''12.5g'') = (Some (Float (25 / 2)), Some (ustr ''g'')) \<and>
   parse_scale_data ([2, 3] @ ustr '' 45.0 g'') = (Some (Float 45), Some (ustr ''g'')) \<and>
   parse_scale_data (ustr ''250g'') = (Some (Float 250), Some (ustr ''g''))"
  using parse_numeral_g [of "[]" "ustr ''12''" "ustr ''5''" "[]"]
    parse_numeral_g [of "[2, 3, 32]" "ustr ''45''" "ustr ''0''" "ustr '' ''"]
    parse_numeral_g [of "[]" "ustr ''250''" "[]" "[]"]
  by (simp add: ustr_def ascii_digit_def weight_char_def uni_decimal_def nd_zeros_def
      digits_value_def binary64_eval)

text \<open>
  The float of a numeral is not always the decimal number: \<open>9007199254740993\<close>, which is
  \<open>2\<^sup>5\<^sup>3 + 1\<close>, lies half way between two floats and goes to the even one below it.
\<close>

theorem parse_rounds_counterexample:
  "parse_scale_data (ustr ''9007199254740993g'') =
     (Some (Float 9007199254740992), Some (ustr ''g''))"
proof -
  have "parse_scale_data ([] @ ustr ''9007199254740993'' @ [] @ ustr ''g'') =
      (Some (binary64 (digits_value (ustr ''9007199254740993'')) 1), Some (ustr ''g''))"
    by (rule parse_digits_g) (simp_all add: ustr_def ascii_digit_def)
  moreover have "binary64 (digits_value (ustr ''9007199254740993'')) 1 = Float 9007199254740992"
    by (simp add: ustr_def digits_value_def binary64_eval)
  ultimately show ?thesis
    by (simp add: ustr_def)
qed

section \<open>Properties of device discovery\<close>

lemmas io_defs = Serial_def ser_write_def readline_text_def emit_def

lemma probe_ok_result:
  "probe_ok w name \<Longrightarrow> fst (probe name w) = Inr (Some (Handle name))"
  by (auto simp: probe_ok_def probe_def io_defs split: list.splits sum.splits)

lemma probe_skipped_result:
  "probe_skipped w name \<Longrightarrow>
     fst (probe name w) = Inr None \<or> (\<exists>e. fst (probe name w) = Inl e \<and> is_SerialException e)"
  by (auto simp: probe_skipped_def probe_def io_defs split: option.splits list.splits sum.splits if_splits)

lemma probe_frame:
  "serial_open (snd (probe name w)) = serial_open w"
  "serial_is_open (snd (probe name w)) = serial_is_open w"
  "serial_write (snd (probe name w)) = serial_write w"
  "n \<noteq> name \<Longrightarrow> serial_lines (snd (probe name w)) n = serial_lines w n"
  by (auto simp: probe_def io_defs split: option.splits list.splits sum.splits)

lemma probe_ok_frame: "n \<noteq> name \<Longrightarrow> probe_ok (snd (probe name w)) n = probe_ok w n"
  by (simp add: probe_ok_def probe_frame cong: list.case_cong)

lemma probe_skipped_frame: "n \<noteq> name \<Longrightarrow> probe_skipped (snd (probe name w)) n = probe_skipped w n"
  by (simp add: probe_skipped_def probe_frame cong: option.case_cong list.case_cong if_cong)

lemma scan_ports_skip:
  assumes "probe_skipped w name"
  shows "scan_ports (name # names) w = scan_ports names (snd (probe name w))"
  using probe_skipped_result [OF assms]
  by (cases "probe name w") (auto split: sum.splits option.splits)

lemma scan_ports_found:
  assumes "distinct (pre @ [c])" "list_all (probe_skipped w) pre" "probe_ok w c"
  shows "fst (scan_ports (pre @ c # post) w) = Inr (Some (Handle c))"
  using assms
proof (induction pre arbitrary: w)
  case Nil
  from probe_ok_result [OF Nil(3)] show ?case
    by (cases "probe c w") (auto split: sum.splits option.splits)
next
  case (Cons a pre)
  let ?w = "snd (probe a w)"
  from Cons.prems have sk: "probe_skipped w a" by simp
  have "\<forall>x\<in>set pre. x \<noteq> a"
    using Cons.prems by auto
  then have "list_all (probe_skipped ?w) pre"
    using Cons.prems by (simp add: list_all_iff probe_skipped_frame)
  moreover have "probe_ok ?w c"
    using Cons.prems by (auto simp: probe_ok_frame)
  moreover have "distinct (pre @ [c])"
    using Cons.prems by simp
  ultimately have "fst (scan_ports (pre @ c # post) ?w) = Inr (Some (Handle c))"
    by (intro Cons.IH)
  then show ?case
    using scan_ports_skip [OF sk] by simp
qed

lemma scan_ports_not_found:
  assumes "distinct cs" "list_all (probe_skipped w) cs"
  shows "fst (scan_ports cs w) = Inr None"
  using assms
proof (induction cs arbitrary: w)
  case Nil
  then show ?case by simp
next
  case (Cons a cs)
  let ?w = "snd (probe a w)"
  from Cons.prems have sk: "probe_skipped w a" by simp
  have "\<forall>x\<in>set cs. x \<noteq> a"
    using Cons.prems by auto
  then have "list_all (probe_skipped ?w) cs"
    using Cons.prems by (simp add: list_all_iff probe_skipped_frame)
  with Cons.prems have "fst (scan_ports cs ?w) = Inr None"
    by (intro Cons.IH) simp_all
  then show ?case
    using scan_ports_skip [OF sk] by simp
qed

lemma str_nat_nonempty: "str_nat n \<noteq> []"
  by (subst str_nat.simps) simp

lemma str_nat_inj: "str_nat n = str_nat m \<Longrightarrow> n = m"
proof (induction n arbitrary: m rule: str_nat.induct)
  case (1 n)
  show ?case
  proof (cases "n < 10")
    case True
    then have n: "str_nat n = [48 + n]" by (subst str_nat.simps) simp
    show ?thesis
    proof (cases "m < 10")
      case True
      then have "str_nat m = [48 + m]" by (subst str_nat.simps) simp
      with n "1.prems" show ?thesis by simp
    next
      case False
      then have "str_nat m = str_nat (m div 10) @ [48 + m mod 10]" by (subst str_nat.simps) simp
      with n "1.prems" str_nat_nonempty [of "m div 10"] show ?thesis by (cases "str_nat (m div 10)") auto
    qed
  next
    case False
    then have n: "str_nat n = str_nat (n div 10) @ [48 + n mod 10]" by (subst str_nat.simps) simp
    show ?thesis
    proof (cases "m < 10")
      case True
      then have "str_nat m = [48 + m]" by (subst str_nat.simps) simp
      with n "1.prems" str_nat_nonempty [of "n div 10"] show ?thesis by (cases "str_nat (n div 10)") auto
    next
      case m: False
      then have "str_nat m = str_nat (m div 10) @ [48 + m mod 10]" by (subst str_nat.simps) simp
      with n "1.prems" have "str_nat (n div 10) = str_nat (m div 10)" "n mod 10 = m mod 10"
        by simp_all
      with "1.IH" [OF False, of "m div 10"] have "n div 10 = m div 10" "n mod 10 = m mod 10"
        by simp_all
      then show ?thesis by (metis div_mult_mod_eq)
    qed
  qed
qed

lemma distinct_windows_ports: "distinct windows_ports"
  by (auto simp: windows_ports_def distinct_map inj_on_def dest: str_nat_inj)

lemma distinct_posix_ports: "distinct entries \<Longrightarrow> distinct (posix_ports entries)"
  by (auto simp: posix_ports_def distinct_map inj_on_def)


lemma probe_ok_emit [simp]: "probe_ok (emit ev w) n = probe_ok w n"
  by (simp add: probe_ok_def emit_def)

lemma probe_skipped_emit [simp]: "probe_skipped (emit ev w) = probe_skipped w"
  by (rule ext) (simp add: probe_skipped_def emit_def cong: option.case_cong list.case_cong if_cong)

lemma find_usb_scale_nt:
  "os_name w = ustr ''nt'' \<Longrightarrow>
   find_usb_scale w = scan_ports windows_ports (emit (Print (ustr ''Searching for USB scale...'')) w)"
  by (simp add: find_usb_scale_def emit_def)

lemma find_usb_scale_posix:
  "os_name w \<noteq> ustr ''nt'' \<Longrightarrow> listdir_dev w = Inr entries \<Longrightarrow>
   find_usb_scale w =
     scan_ports (posix_ports entries) (emit (Print (ustr ''Searching for USB scale...'')) w)"
  by (simp add: find_usb_scale_def emit_def)

lemma find_nt_found:
  assumes "os_name w = ustr ''nt''" "windows_ports = pre @ c # post"
    "list_all (probe_skipped w) pre" "probe_ok w c"
  shows "fst (find_usb_scale w) = Inr (Some (Handle c))"
proof -
  have "distinct (pre @ [c])"
    using distinct_windows_ports unfolding assms(2) by simp
  then have "fst (scan_ports (pre @ c # post)
      (emit (Print (ustr ''Searching for USB scale...'')) w)) = Inr (Some (Handle c))"
    using assms(3,4) by (intro scan_ports_found) simp_all
  then show ?thesis
    using assms(1,2) by (simp add: find_usb_scale_nt)
qed

lemma find_nt_not_found:
  assumes "os_name w = ustr ''nt''" "list_all (probe_skipped w) windows_ports"
  shows "fst (find_usb_scale w) = Inr None"
proof -
  have "fst (scan_ports windows_ports
      (emit (Print (ustr ''Searching for USB scale...'')) w)) = Inr None"
    using distinct_windows_ports assms(2) by (intro scan_ports_not_found) simp_all
  then show ?thesis
    using assms(1) by (simp add: find_usb_scale_nt)
qed

lemma find_posix_found:
  assumes "os_name w \<noteq> ustr ''nt''" "listdir_dev w = Inr entries" "distinct entries"
    "posix_ports entries = pre @ c # post" "list_all (probe_skipped w) pre" "probe_ok w c"
  shows "fst (find_usb_scale w) = Inr (Some (Handle c))"
proof -
  have "distinct (pre @ [c])"
    using distinct_posix_ports [OF assms(3)] unfolding assms(4) by simp
  then have "fst (scan_ports (pre @ c # post)
      (emit (Print (ustr ''Searching for USB scale...'')) w)) = Inr (Some (Handle c))"
    using assms(5,6) by (intro scan_ports_found) simp_all
  then show ?thesis
    using assms(1,2,4) by (simp add: find_usb_scale_posix)
qed

lemma find_posix_not_found:
  assumes "os_name w \<noteq> ustr ''nt''" "listdir_dev w = Inr entries" "distinct entries"
    "list_all (probe_skipped w) (posix_ports entries)"
  shows "fst (find_usb_scale w) = Inr None"
proof -
  have "fst (scan_ports (posix_ports entries)
      (emit (Print (ustr ''Searching for USB scale...'')) w)) = Inr None"
    using distinct_posix_ports [OF assms(3)] assms(4) by (intro scan_ports_not_found) simp_all
  then show ?thesis
    using assms(1,2) by (simp add: find_usb_scale_posix)
qed

lemma windows_ports_ends:
  "length windows_ports = 255 \<and> hd windows_ports = ustr ''COM1'' \<and>
   last windows_ports = ustr ''COM255''"
proof -
  have h: "hd windows_ports = ustr ''COM'' @ str_nat 1"
    by (simp add: windows_ports_def hd_map)
  have l: "last windows_ports = ustr ''COM'' @ str_nat 255"
    by (simp add: windows_ports_def last_map)
  have s: "str_nat 1 = ustr ''1''" "str_nat 255 = ustr ''255''"
    by (simp_all add: str_nat.simps ustr_def)
  have n: "length windows_ports = 255"
    by (simp add: windows_ports_def)
  show ?thesis
    unfolding h l s n by (simp add: ustr_def)
qed

text \<open>
  Claim C7, as amended. The candidates are \<open>COM1\<close> to \<open>COM255\<close> on the numbered-port
  family and, on the device-file family, the entries of \<open>/dev\<close> that start with \<open>ttyUSB\<close>
  or \<open>ttyACM\<close>, in order. \<open>find_usb_scale\<close> returns a handle bound to the first candidate
  that opens and whose probe exchange raises nothing, whatever the probe response says,
  when every candidate before it is skipped (its open or its probe raises a serial
  exception); it returns \<open>None\<close> when every candidate is skipped, and an empty candidate
  list gives \<open>None\<close> and no error. The entries of a directory listing are distinct.
\<close>
theorem find_usb_scale_first_usable:
  "length windows_ports = 255 \<and> hd windows_ports = ustr ''COM1'' \<and>
   last windows_ports = ustr ''COM255'' \<and>
   (os_name w = ustr ''nt'' \<and> windows_ports = pre @ c # post \<and>
    list_all (probe_skipped w) pre \<and> probe_ok w c \<longrightarrow>
      fst (find_usb_scale w) = Inr (Some (Handle c))) \<and>
   (os_name w = ustr ''nt'' \<and> list_all (probe_skipped w) windows_ports \<longrightarrow>
      fst (find_usb_scale w) = Inr None) \<and>
   (os_name w \<noteq> ustr ''nt'' \<and> listdir_dev w = Inr entries \<and> distinct entries \<and>
    posix_ports entries = pre @ c # post \<and> list_all (probe_skipped w) pre \<and> probe_ok w c \<longrightarrow>
      fst (find_usb_scale w) = Inr (Some (Handle c))) \<and>
   (os_name w \<noteq> ustr ''nt'' \<and> listdir_dev w = Inr entries \<and> distinct entries \<and>
    list_all (probe_skipped w) (posix_ports entries) \<longrightarrow>
      fst (find_usb_scale w) = Inr None) \<and>
   (os_name w \<noteq> ustr ''nt'' \<and> listdir_dev w = Inr entries \<and> posix_ports entries = [] \<longrightarrow>
      find_usb_scale w = (Inr None, emit (Print (ustr ''Searching for USB scale...'')) w))"
proof (intro conjI impI; (elim conjE)?)
  show "length windows_ports = 255" "hd windows_ports = ustr ''COM1''"
    "last windows_ports = ustr ''COM255''"
    using windows_ports_ends by simp_all
next
  assume "os_name w = ustr ''nt''" "windows_ports = pre @ c # post"
    "list_all (probe_skipped w) pre" "probe_ok w c"
  then show "fst (find_usb_scale w) = Inr (Some (Handle c))"
    by (rule find_nt_found)
next
  assume "os_name w = ustr ''nt''" "list_all (probe_skipped w) windows_ports"
  then show "fst (find_usb_scale w) = Inr None"
    by (rule find_nt_not_found)
next
  assume "os_name w \<noteq> ustr ''nt''" "listdir_dev w = Inr entries" "distinct entries"
    "posix_ports entries = pre @ c # post" "list_all (probe_skipped w) pre" "probe_ok w c"
  then show "fst (find_usb_scale w) = Inr (Some (Handle c))"
    by (rule find_posix_found)
next
  assume "os_name w \<noteq> ustr ''nt''" "listdir_dev w = Inr entries" "distinct entries"
    "list_all (probe_skipped w) (posix_ports entries)"
  then show "fst (find_usb_scale w) = Inr None"
    by (rule find_posix_not_found)
next
  assume "os_name w \<noteq> ustr ''nt''" "listdir_dev w = Inr entries" "posix_ports entries = []"
  then show "find_usb_scale w = (Inr None, emit (Print (ustr ''Searching for USB scale...'')) w)"
    by (simp add: find_usb_scale_posix)
qed

section \<open>Properties of the reading service\<close>

lemma parse_12_5g: "parse_scale_data (ustr ''12.5g'') = (Some (Float (25 / 2)), Some (ustr ''g''))"
proof -
  have c: "clean (ustr ''12.5g'') = ustr ''12.5g''"
    by (simp add: ustr_def clean_eval)
  have m: "re_match_weight (ustr ''12.5g'') = Some (ustr ''12.5'', Some (ustr ''g''))"
    by (simp add: ustr_def match_eval)
  have f: "py_float (ustr ''12.5'') = Some (Float (25 / 2))"
    by (simp add: ustr_def float_eval)
  show ?thesis
    by (simp add: parse_scale_data_def c m f)
qed

lemma parse_result_cases:
  "parse_scale_data raw = (None, None) \<or> (\<exists>w u. parse_scale_data raw = (Some w, Some u))"
  by (auto simp: parse_scale_data_def split: option.splits)

lemmas host_eval = host_def posix_ports_def ustr_def probe_ok_def probe_skipped_def
  is_SerialException_def

lemmas run_eval = find_usb_scale_def host_def posix_ports_def probe_def io_defs Let_def
  is_SerialException_def py_strip_def uni_space_def

text \<open>The states of the example hosts after discovery.\<close>

lemma find_write_fails:
  "fst (find_usb_scale host_write_fails) = Inr (Some (Handle (ustr ''/dev/ttyACM0'')))"
  by (rule find_posix_found [where pre = "[ustr ''/dev/ttyUSB0'']" and post = "[]"
        and entries = "[ustr ''sda'', ustr ''ttyUSB0'', ustr ''ttyACM0'']"])
     (simp_all add: host_write_fails_def host_eval)

lemma find_undecodable:
  "fst (find_usb_scale host_undecodable) = Inl decode_error"
  by (simp add: host_undecodable_def decode_error_def run_eval ustr_def)

lemma run_no_ports:
  "find_usb_scale host_no_ports = (Inr None, emit (Print (ustr ''Searching for USB scale...'')) host_no_ports)"
  by (simp add: host_no_ports_def run_eval ustr_def)


lemma read_maps_outcome:
  "fst (read_scale w) =
     (case reading_outcome w of Inl e \<Rightarrow> Inl e | Inr out \<Rightarrow> Inr (http_of_outcome out))"
proof (cases "find_usb_scale w")
  case (Pair r w1)
  show ?thesis
  proof (cases r)
    case (Inl e)
    with Pair show ?thesis
      by (simp add: read_scale_def read_usb_scale_data_def reading_outcome_def)
  next
    case (Inr found)
    show ?thesis
    proof (cases found)
      case None
      with Pair Inr show ?thesis
        by (simp add: read_scale_def read_usb_scale_data_def reading_outcome_def http_of_outcome_def)
    next
      case (Some scale)
      show ?thesis
      proof (cases "readline_text scale w1")
        case line: (Pair l w2)
        show ?thesis
        proof (cases l)
          case (Inl e)
          with Pair Inr Some line show ?thesis
            by (simp add: read_scale_def read_usb_scale_data_def reading_outcome_def
                http_of_outcome_def)
        next
          case data: (Inr d)
          from parse_result_cases [of d] Pair Inr Some line data show ?thesis
            by (auto simp: read_scale_def read_usb_scale_data_def reading_outcome_def
                http_of_outcome_def json_of_weight_def json_of_unit_def)
        qed
      qed
    qed
  qed
qed

text \<open>Discovery is counted by its search line.\<close>

lemma searches_emit:
  "searches (emit ev w) =
     (if ev = Print (ustr ''Searching for USB scale...'') then Suc (searches w) else searches w)"
  by (simp add: searches_def emit_def)

lemma searches_probe: "searches (snd (probe name w)) = searches w"
  by (simp add: probe_def io_defs searches_def ustr_def
      split: option.splits list.splits sum.splits prod.splits)

lemma searches_scan_ports: "searches (snd (scan_ports names w)) = searches w"
proof (induction names arbitrary: w)
  case Nil
  show ?case by simp
next
  case (Cons name names)
  show ?case
    using Cons.IH [of "snd (probe name w)"] searches_probe [of name w]
    by (cases "probe name w") (auto split: sum.splits option.splits)
qed

lemma searches_readline: "searches (snd (readline_text ser w)) = searches w"
  by (simp add: io_defs searches_def split: list.splits)

lemma searches_find: "searches (snd (find_usb_scale w)) = Suc (searches w)"
  by (simp add: find_usb_scale_def Let_def searches_scan_ports searches_emit
      split: sum.splits)

lemma searches_read: "searches (snd (read_usb_scale_data w)) = Suc (searches w)"
proof (cases "find_usb_scale w")
  case (Pair r w1)
  with searches_find [of w] have s: "searches w1 = Suc (searches w)"
    by simp
  show ?thesis
  proof (cases r)
    case (Inl e)
    with Pair s show ?thesis
      by (simp add: read_usb_scale_data_def)
  next
    case (Inr found)
    show ?thesis
    proof (cases found)
      case None
      with Pair Inr s show ?thesis
        by (simp add: read_usb_scale_data_def)
    next
      case (Some scale)
      with Pair Inr s searches_readline [of scale w1] show ?thesis
        by (cases "readline_text scale w1")
          (auto simp: read_usb_scale_data_def split: sum.splits prod.splits)
    qed
  qed
qed


text \<open>The example hosts, run.\<close>

lemmas parse_12_5g_codes = parse_12_5g [unfolded ustr_def, simplified]

lemmas parse_ERROR_codes = parse_ERROR [unfolded ustr_def, simplified]

lemma outcome_write_fails:
  "reading_outcome host_write_fails = Inr (Success (Float (25 / 2)) (ustr ''g''))"
  by (simp add: reading_outcome_def host_write_fails_def run_eval ustr_def parse_12_5g_codes)

lemma outcome_no_ports: "reading_outcome host_no_ports = Inr DeviceNotFound"
  by (simp add: reading_outcome_def host_no_ports_def run_eval ustr_def)

lemma outcome_parse_failure: "reading_outcome host_parse_failure = Inr ParseFailure"
  by (simp add: reading_outcome_def host_parse_failure_def run_eval ustr_def parse_ERROR_codes)

lemma outcome_read_fails:
  "reading_outcome host_read_fails = Inr (IOError (ustr ''device disconnected''))"
  by (simp add: reading_outcome_def host_read_fails_def run_eval ustr_def)

lemma outcome_undecodable:
  "reading_outcome host_undecodable = Inl decode_error"
  by (simp add: reading_outcome_def host_undecodable_def decode_error_def run_eval ustr_def)

lemma read_undecodable:
  "fst (read_scale host_undecodable) = Inl decode_error"
  by (simp add: read_maps_outcome outcome_undecodable)

lemma trace_two_calls:
  "trace (snd (read_usb_scale_data (snd (read_usb_scale_data host_parse_failure)))) =
     [Print (ustr ''Searching for USB scale...''), Open (ustr ''/dev/ttyUSB0''),
      Write (ustr ''/dev/ttyUSB0'') ''CHECK'', ReadLine (ustr ''/dev/ttyUSB0''),
      Print (ustr ''Found USB scale at /dev/ttyUSB0''), ReadLine (ustr ''/dev/ttyUSB0''),
      Print (ustr ''Searching for USB scale...''), Open (ustr ''/dev/ttyUSB0''),
      Write (ustr ''/dev/ttyUSB0'') ''CHECK'', ReadLine (ustr ''/dev/ttyUSB0''),
      Print (ustr ''Found USB scale at /dev/ttyUSB0''), ReadLine (ustr ''/dev/ttyUSB0'')]"
  by (simp add: read_usb_scale_data_def host_parse_failure_def run_eval ustr_def
      parse_ERROR_codes parse_12_5g_codes)

lemma first_call_parse_failure:
  "fst (read_usb_scale_data host_parse_failure) =
     Inr ([(ustr ''error'', JStr (ustr ''Failed to parse weight from scale data''))], 500)"
  by (simp add: read_usb_scale_data_def host_parse_failure_def run_eval ustr_def
      parse_ERROR_codes)

lemma second_call_success:
  "fst (read_usb_scale_data (snd (read_usb_scale_data host_parse_failure))) =
     Inr ([(ustr ''weight'', JFloat (Float (25 / 2))), (ustr ''unit'', JStr (ustr ''g''))], 200)"
  by (simp add: read_usb_scale_data_def host_parse_failure_def run_eval ustr_def
      parse_ERROR_codes parse_12_5g_codes json_of_weight_def json_of_unit_def del: not_None_eq)


lemma open_fails_skipped: "open_fails w name \<Longrightarrow> probe_skipped w name"
  by (simp add: open_fails_def probe_skipped_def split: option.splits)

lemma list_all_open_fails_skipped:
  "list_all (open_fails w) names \<Longrightarrow> list_all (probe_skipped w) names"
  by (simp add: list_all_iff open_fails_skipped)

lemma not_found_response:
  "fst (find_usb_scale w) = Inr None \<Longrightarrow> fst (read_scale w) = Inr (http_of_outcome DeviceNotFound)"
  by (cases "find_usb_scale w") (simp add: read_maps_outcome reading_outcome_def)

text \<open>
  When discovery returns, the response of \<open>GET /read-scale\<close> is the row of the table for
  the outcome of the call: 200 with weight and unit for a reading, 404 with
  \<open>USB scale not found\<close> when no device is found, 500 with
  \<open>Failed to parse weight from scale data\<close> for a line that does not parse, 500 with
  \<open>Error reading scale:\<close> and the text of the exception when the read raises. In
  particular, when no candidate can be opened the response is the 404 row.
\<close>

lemma read_scale_maps_outcome:
  "fst (read_scale w) =
     (case reading_outcome w of Inl e \<Rightarrow> Inl e | Inr out \<Rightarrow> Inr (http_of_outcome out)) \<and>
   http_of_outcome (Success weight u) =
     ([(ustr ''weight'', JFloat weight), (ustr ''unit'', JStr u)], 200) \<and>
   http_of_outcome DeviceNotFound = ([(ustr ''error'', JStr (ustr ''USB scale not found''))], 404) \<and>
   http_of_outcome ParseFailure =
     ([(ustr ''error'', JStr (ustr ''Failed to parse weight from scale data''))], 500) \<and>
   http_of_outcome (IOError detail) =
     ([(ustr ''error'', JStr (ustr ''Error reading scale: '' @ detail))], 500) \<and>
   (os_name w = ustr ''nt'' \<and> list_all (open_fails w) windows_ports \<longrightarrow>
      fst (read_scale w) = Inr (http_of_outcome DeviceNotFound)) \<and>
   (os_name w \<noteq> ustr ''nt'' \<and> listdir_dev w = Inr entries \<and> distinct entries \<and>
    list_all (open_fails w) (posix_ports entries) \<longrightarrow>
      fst (read_scale w) = Inr (http_of_outcome DeviceNotFound))"
proof (intro conjI impI; (elim conjE)?)
  show "fst (read_scale w) =
     (case reading_outcome w of Inl e \<Rightarrow> Inl e | Inr out \<Rightarrow> Inr (http_of_outcome out))"
    by (rule read_maps_outcome)
next
  assume "os_name w = ustr ''nt''" "list_all (open_fails w) windows_ports"
  then have "fst (find_usb_scale w) = Inr None"
    by (intro find_nt_not_found list_all_open_fails_skipped)
  then show "fst (read_scale w) = Inr (http_of_outcome DeviceNotFound)"
    by (rule not_found_response)
next
  assume "os_name w \<noteq> ustr ''nt''" "listdir_dev w = Inr entries" "distinct entries"
    "list_all (open_fails w) (posix_ports entries)"
  then have "fst (find_usb_scale w) = Inr None"
    by (intro find_posix_not_found list_all_open_fails_skipped)
  then show "fst (read_scale w) = Inr (http_of_outcome DeviceNotFound)"
    by (rule not_found_response)
qed (simp_all add: http_of_outcome_def)

lemma read_scale_maps_outcome_examples:
  "fst (read_scale host_write_fails) =
     Inr ([(ustr ''weight'', JFloat (Float (25 / 2))), (ustr ''unit'', JStr (ustr ''g''))], 200) \<and>
   fst (read_scale host_no_ports) =
     Inr ([(ustr ''error'', JStr (ustr ''USB scale not found''))], 404) \<and>
   fst (read_scale host_parse_failure) =
     Inr ([(ustr ''error'', JStr (ustr ''Failed to parse weight from scale data''))], 500) \<and>
   fst (read_scale host_read_fails) =
     Inr ([(ustr ''error'', JStr (ustr ''Error reading scale: device disconnected''))], 500) \<and>
   list_all (open_fails host_no_com) windows_ports \<and>
   fst (read_scale host_no_com) =
     Inr ([(ustr ''error'', JStr (ustr ''USB scale not found''))], 404)"
proof -
  have a: "fst (read_scale host_write_fails) =
     Inr ([(ustr ''weight'', JFloat (Float (25 / 2))), (ustr ''unit'', JStr (ustr ''g''))], 200)"
    using read_scale_maps_outcome [where w = host_write_fails, THEN conjunct1]
    by (simp add: outcome_write_fails http_of_outcome_def)
  have b: "fst (read_scale host_no_ports) =
     Inr ([(ustr ''error'', JStr (ustr ''USB scale not found''))], 404)"
    using read_scale_maps_outcome [where w = host_no_ports, THEN conjunct1]
    by (simp add: outcome_no_ports http_of_outcome_def)
  have c: "fst (read_scale host_parse_failure) =
     Inr ([(ustr ''error'', JStr (ustr ''Failed to parse weight from scale data''))], 500)"
    using read_scale_maps_outcome [where w = host_parse_failure, THEN conjunct1]
    by (simp add: outcome_parse_failure http_of_outcome_def)
  have d: "fst (read_scale host_read_fails) =
     Inr ([(ustr ''error'', JStr (ustr ''Error reading scale: device disconnected''))], 500)"
    using read_scale_maps_outcome [where w = host_read_fails, THEN conjunct1]
    by (simp add: outcome_read_fails http_of_outcome_def) (simp add: ustr_def)
  have o: "list_all (open_fails host_no_com) windows_ports"
    by (simp add: list_all_iff open_fails_def host_no_com_def host_windows_def
        is_SerialException_def)
  have n: "os_name host_no_com = ustr ''nt''"
    by (simp add: host_no_com_def host_windows_def)
  have e: "fst (read_scale host_no_com) =
     Inr ([(ustr ''error'', JStr (ustr ''USB scale not found''))], 404)"
    using read_scale_maps_outcome [where w = host_no_com, THEN conjunct2, THEN conjunct2,
        THEN conjunct2, THEN conjunct2, THEN conjunct2, THEN conjunct1] o n
    by (simp add: http_of_outcome_def)
  from a b c d o e show ?thesis by simp
qed

lemma probe_found:
  assumes "fst (probe name w) = Inr (Some h)"
  shows "h = Handle name \<and>
         trace (snd (probe name w)) =
           trace w @ [Open name, Write name ''CHECK'', ReadLine name,
                      Print (ustr ''Found USB scale at '' @ name)]"
  using assms
  by (auto simp: probe_def io_defs split: option.splits list.splits sum.splits if_splits)

lemma probe_trace_grows: "\<exists>evs. trace (snd (probe name w)) = trace w @ evs"
  by (auto simp: probe_def io_defs split: option.splits list.splits sum.splits)

lemma scan_ports_found_trace:
  "fst (scan_ports names w) = Inr (Some h) \<Longrightarrow>
   \<exists>evs. trace (snd (scan_ports names w)) =
     trace w @ evs @ [Open (port h), Write (port h) ''CHECK'', ReadLine (port h),
                      Print (ustr ''Found USB scale at '' @ port h)]"
proof (induction names arbitrary: w)
  case Nil
  then show ?case by simp
next
  case (Cons name names)
  obtain r w' where p: "probe name w = (r, w')"
    by (cases "probe name w")
  from probe_trace_grows [of name w] p obtain evs0 where g: "trace w' = trace w @ evs0"
    by auto
  show ?case
  proof (cases "r = Inr (Some h)")
    case True
    with p probe_found [of name w h] have "h = Handle name"
      and "trace w' = trace w @ [] @ [Open name, Write name ''CHECK'', ReadLine name,
                      Print (ustr ''Found USB scale at '' @ name)]"
      by simp_all
    with p True show ?thesis
      by (intro exI [of _ "[]"]) simp
  next
    case False
    with Cons.prems p have c: "scan_ports (name # names) w = scan_ports names w'"
      by (auto split: sum.splits option.splits if_splits)
    with Cons.prems have "fst (scan_ports names w') = Inr (Some h)"
      by simp
    from Cons.IH [OF this] obtain evs where
      "trace (snd (scan_ports names w')) =
         trace w' @ evs @ [Open (port h), Write (port h) ''CHECK'', ReadLine (port h),
                      Print (ustr ''Found USB scale at '' @ port h)]"
      by blast
    with c g show ?thesis
      by (intro exI [of _ "evs0 @ evs"]) simp
  qed
qed

lemma find_usb_scale_found_trace:
  assumes "fst (find_usb_scale w) = Inr (Some h)"
  shows "\<exists>evs. trace (snd (find_usb_scale w)) =
     trace w @ Print (ustr ''Searching for USB scale...'') # evs @
       [Open (port h), Write (port h) ''CHECK'', ReadLine (port h),
        Print (ustr ''Found USB scale at '' @ port h)]"
proof -
  let ?w0 = "emit (Print (ustr ''Searching for USB scale...'')) w"
  from assms obtain names where f: "find_usb_scale w = scan_ports names ?w0"
    by (auto simp: find_usb_scale_def Let_def emit_def split: if_splits sum.splits)
  with assms scan_ports_found_trace [of names ?w0 h] show ?thesis
    by (simp add: emit_def)
qed

lemma read_after_found:
  assumes "find_usb_scale w = (Inr (Some h), w1)"
  shows "trace (snd (read_usb_scale_data w)) = trace w1 @ [ReadLine (port h)]"
    and "fst (read_usb_scale_data w) = Inr (http_of_outcome (line_outcome (next_line w1 (port h))))"
proof -
  show "trace (snd (read_usb_scale_data w)) = trace w1 @ [ReadLine (port h)]"
    using assms
    by (simp add: read_usb_scale_data_def io_defs split: list.splits sum.splits prod.splits)
  show "fst (read_usb_scale_data w) = Inr (http_of_outcome (line_outcome (next_line w1 (port h))))"
  proof (cases "next_line w1 (port h)")
    case (Inl e)
    with assms show ?thesis
      by (simp add: read_usb_scale_data_def io_defs next_line_def line_outcome_def
          http_of_outcome_def split: list.splits)
  next
    case (Inr line)
    have r: "fst (readline_text h w1) = Inr (py_strip line)"
      using Inr by (simp add: io_defs next_line_def split: list.splits)
    from parse_result_cases [of "py_strip line"] show ?thesis
    proof
      assume "parse_scale_data (py_strip line) = (None, None)"
      with assms Inr r show ?thesis
        by (cases "readline_text h w1")
          (simp add: read_usb_scale_data_def line_outcome_def http_of_outcome_def)
    next
      assume "\<exists>wt u. parse_scale_data (py_strip line) = (Some wt, Some u)"
      then obtain wt u where "parse_scale_data (py_strip line) = (Some wt, Some u)"
        by blast
      with assms Inr r show ?thesis
        by (cases "readline_text h w1")
          (simp add: read_usb_scale_data_def line_outcome_def http_of_outcome_def
            json_of_weight_def json_of_unit_def)
    qed
  qed
qed

lemma read_after_not_found:
  assumes "fst (find_usb_scale w) = Inr None"
  shows "read_usb_scale_data w = (Inr (http_of_outcome DeviceNotFound), snd (find_usb_scale w))"
  using assms
  by (cases "find_usb_scale w") (simp add: read_usb_scale_data_def http_of_outcome_def)

text \<open>
  Claim C2, as amended. No handle is held between calls of the reading service. Every
  call, whatever the outcome of the call before it, runs device discovery anew, once;
  when discovery returns a handle it has just opened and probed that port, and the call
  then reads one line from this handle and answers with the outcome of that line; when
  discovery finds nothing the call answers that no device was found.
\<close>
theorem read_usb_scale_data_rediscovers:
  "searches (snd (read_usb_scale_data w)) = Suc (searches w) \<and>
   searches (snd (read_usb_scale_data (snd (read_usb_scale_data w)))) = Suc (Suc (searches w)) \<and>
   (fst (find_usb_scale w) = Inr (Some h) \<longrightarrow>
      (\<exists>evs. trace (snd (find_usb_scale w)) =
         trace w @ Print (ustr ''Searching for USB scale...'') # evs @
           [Open (port h), Write (port h) ''CHECK'', ReadLine (port h),
            Print (ustr ''Found USB scale at '' @ port h)]) \<and>
      trace (snd (read_usb_scale_data w)) = trace (snd (find_usb_scale w)) @ [ReadLine (port h)] \<and>
      fst (read_usb_scale_data w) =
        Inr (http_of_outcome (line_outcome (next_line (snd (find_usb_scale w)) (port h))))) \<and>
   (fst (find_usb_scale w) = Inr None \<longrightarrow>
      read_usb_scale_data w = (Inr (http_of_outcome DeviceNotFound), snd (find_usb_scale w)))"
proof (intro conjI impI)
  assume f: "fst (find_usb_scale w) = Inr (Some h)"
  then show "\<exists>evs. trace (snd (find_usb_scale w)) =
         trace w @ Print (ustr ''Searching for USB scale...'') # evs @
           [Open (port h), Write (port h) ''CHECK'', ReadLine (port h),
            Print (ustr ''Found USB scale at '' @ port h)]"
    by (rule find_usb_scale_found_trace)
  from f have p: "find_usb_scale w = (Inr (Some h), snd (find_usb_scale w))"
    by (cases "find_usb_scale w") simp
  show "trace (snd (read_usb_scale_data w)) = trace (snd (find_usb_scale w)) @ [ReadLine (port h)]"
    by (rule read_after_found(1) [OF p])
  show "fst (read_usb_scale_data w) =
        Inr (http_of_outcome (line_outcome (next_line (snd (find_usb_scale w)) (port h))))"
    by (rule read_after_found(2) [OF p])
next
  assume "fst (find_usb_scale w) = Inr None"
  then show "read_usb_scale_data w =
      (Inr (http_of_outcome DeviceNotFound), snd (find_usb_scale w))"
    by (rule read_after_not_found)
qed (simp_all add: searches_read)

lemma find_parse_failure:
  "fst (find_usb_scale host_parse_failure) = Inr (Some (Handle (ustr ''/dev/ttyUSB0'')))"
  by (simp add: host_parse_failure_def run_eval ustr_def)

lemma trace_find_parse_failure:
  "trace (snd (find_usb_scale host_parse_failure)) =
     [Print (ustr ''Searching for USB scale...''), Open (ustr ''/dev/ttyUSB0''),
      Write (ustr ''/dev/ttyUSB0'') ''CHECK'', ReadLine (ustr ''/dev/ttyUSB0''),
      Print (ustr ''Found USB scale at /dev/ttyUSB0'')]"
  by (simp add: host_parse_failure_def run_eval ustr_def)

lemma next_line_parse_failure:
  "next_line (snd (find_usb_scale host_parse_failure)) (ustr ''/dev/ttyUSB0'') =
     Inr (ustr ''ERROR'')"
  by (simp add: next_line_def host_parse_failure_def run_eval ustr_def)

lemma line_outcome_ERROR: "line_outcome (Inr (ustr ''ERROR'')) = ParseFailure"
proof -
  have "py_strip (ustr ''ERROR'') = ustr ''ERROR''"
    by (simp add: py_strip_def uni_space_def ustr_def)
  then show ?thesis
    by (simp add: line_outcome_def parse_ERROR)
qed

theorem read_usb_scale_data_rediscovers_witness:
  "searches host_parse_failure = 0 \<and>
   searches (snd (read_usb_scale_data host_parse_failure)) = 1 \<and>
   searches (snd (read_usb_scale_data (snd (read_usb_scale_data host_parse_failure)))) = 2 \<and>
   fst (find_usb_scale host_parse_failure) = Inr (Some (Handle (ustr ''/dev/ttyUSB0''))) \<and>
   trace (snd (read_usb_scale_data host_parse_failure)) =
     [Print (ustr ''Searching for USB scale...''), Open (ustr ''/dev/ttyUSB0''),
      Write (ustr ''/dev/ttyUSB0'') ''CHECK'', ReadLine (ustr ''/dev/ttyUSB0''),
      Print (ustr ''Found USB scale at /dev/ttyUSB0''), ReadLine (ustr ''/dev/ttyUSB0'')] \<and>
   fst (read_usb_scale_data host_parse_failure) =
     Inr ([(ustr ''error'', JStr (ustr ''Failed to parse weight from scale data''))], 500) \<and>
   find_usb_scale host_no_ports =
     (Inr None, emit (Print (ustr ''Searching for USB scale...'')) host_no_ports) \<and>
   read_usb_scale_data host_no_ports =
     (Inr ([(ustr ''error'', JStr (ustr ''USB scale not found''))], 404),
      emit (Print (ustr ''Searching for USB scale...'')) host_no_ports)"
proof -
  note th = read_usb_scale_data_rediscovers [where w = host_parse_failure
      and h = "Handle (ustr ''/dev/ttyUSB0'')"]
  have s0: "searches host_parse_failure = 0"
    by (simp add: searches_def host_parse_failure_def host_def)
  from th s0 have s1: "searches (snd (read_usb_scale_data host_parse_failure)) = 1"
    and s2: "searches (snd (read_usb_scale_data (snd (read_usb_scale_data host_parse_failure)))) = 2"
    by simp_all
  from th [THEN conjunct2, THEN conjunct2, THEN conjunct1, THEN mp, OF find_parse_failure]
  have t: "trace (snd (read_usb_scale_data host_parse_failure)) =
      trace (snd (find_usb_scale host_parse_failure)) @ [ReadLine (ustr ''/dev/ttyUSB0'')]"
    and r: "fst (read_usb_scale_data host_parse_failure) =
      Inr (http_of_outcome (line_outcome
        (next_line (snd (find_usb_scale host_parse_failure)) (ustr ''/dev/ttyUSB0''))))"
    by simp_all
  have t': "trace (snd (read_usb_scale_data host_parse_failure)) =
     [Print (ustr ''Searching for USB scale...''), Open (ustr ''/dev/ttyUSB0''),
      Write (ustr ''/dev/ttyUSB0'') ''CHECK'', ReadLine (ustr ''/dev/ttyUSB0''),
      Print (ustr ''Found USB scale at /dev/ttyUSB0''), ReadLine (ustr ''/dev/ttyUSB0'')]"
    unfolding t trace_find_parse_failure by simp
  have r': "fst (read_usb_scale_data host_parse_failure) =
     Inr ([(ustr ''error'', JStr (ustr ''Failed to parse weight from scale data''))], 500)"
    unfolding r next_line_parse_failure line_outcome_ERROR by (simp add: http_of_outcome_def)
  have n: "fst (find_usb_scale host_no_ports) = Inr None"
    by (simp add: run_no_ports)
  from read_usb_scale_data_rediscovers [where w = host_no_ports, THEN conjunct2, THEN conjunct2,
      THEN conjunct2, THEN mp, OF n]
  have d: "read_usb_scale_data host_no_ports =
     (Inr ([(ustr ''error'', JStr (ustr ''USB scale not found''))], 404),
      emit (Print (ustr ''Searching for USB scale...'')) host_no_ports)"
    by (simp add: run_no_ports http_of_outcome_def)
  from s0 s1 s2 find_parse_failure t' r' run_no_ports d show ?thesis
    by simp
qed

theorem parse_failure_reprobes_counterexample:
  "fst (read_usb_scale_data host_parse_failure) =
     Inr ([(ustr ''error'', JStr (ustr ''Failed to parse weight from scale data''))], 500) \<and>
   trace (snd (read_usb_scale_data (snd (read_usb_scale_data host_parse_failure)))) =
     [Print (ustr ''Searching for USB scale...''), Open (ustr ''/dev/ttyUSB0''),
      Write (ustr ''/dev/ttyUSB0'') ''CHECK'', ReadLine (ustr ''/dev/ttyUSB0''),
      Print (ustr ''Found USB scale at /dev/ttyUSB0''), ReadLine (ustr ''/dev/ttyUSB0''),
      Print (ustr ''Searching for USB scale...''), Open (ustr ''/dev/ttyUSB0''),
      Write (ustr ''/dev/ttyUSB0'') ''CHECK'', ReadLine (ustr ''/dev/ttyUSB0''),
      Print (ustr ''Found USB scale at /dev/ttyUSB0''), ReadLine (ustr ''/dev/ttyUSB0'')]"
  using first_call_parse_failure trace_two_calls by simp

text \<open>
  Claim C1, at the failing input. When discovery raises, the call has no outcome and its
  response is no row of the table: on \<open>host_undecodable\<close> the decoding error of the probe
  leaves the view function, for the web framework to answer.
\<close>
theorem read_scale_outside_table:
  "fst (read_scale host_undecodable) = Inl decode_error \<and>
   (\<forall>out. fst (read_scale host_undecodable) \<noteq> Inr (http_of_outcome out))"
  using read_undecodable by simp

text \<open>
  Claim C3, at the failing input. The first candidate opens and answers the probe with
  bytes that are not UTF-8: the decoding error is no serial exception, so it is not
  swallowed; the second candidate, which would pass the probe, is never tried, and the
  exception leaves \<open>find_usb_scale\<close>, \<open>read_usb_scale_data\<close> and the view function.
\<close>
theorem probe_decode_error_escapes:
  "posix_ports [ustr ''ttyUSB0'', ustr ''ttyACM0''] = [ustr ''/dev/ttyUSB0'', ustr ''/dev/ttyACM0''] \<and>
   serial_lines host_undecodable (ustr ''/dev/ttyUSB0'') = [Inl decode_error] \<and>
   exn_class decode_error = UnicodeDecodeError \<and>
   probe_ok host_undecodable (ustr ''/dev/ttyACM0'') \<and>
   fst (find_usb_scale host_undecodable) = Inl decode_error \<and>
   fst (read_scale host_undecodable) = Inl decode_error"
  using find_undecodable read_undecodable
  by (simp add: host_undecodable_def decode_error_def host_eval)

theorem find_usb_scale_first_usable_witness:
  "fst (find_usb_scale host_write_fails) = Inr (Some (Handle (ustr ''/dev/ttyACM0''))) \<and>
   fst (find_usb_scale host_no_ports) = Inr None \<and>
   fst (find_usb_scale host_com2) = Inr (Some (Handle (ustr ''COM2''))) \<and>
   fst (find_usb_scale host_no_com) = Inr None"
proof -
  have a: "fst (find_usb_scale host_write_fails) = Inr (Some (Handle (ustr ''/dev/ttyACM0'')))"
    using find_usb_scale_first_usable [of host_write_fails "[ustr ''/dev/ttyUSB0'']"
        "ustr ''/dev/ttyACM0''" "[]" "[ustr ''sda'', ustr ''ttyUSB0'', ustr ''ttyACM0'']"]
    by (simp add: host_write_fails_def host_eval)
  have b: "fst (find_usb_scale host_no_ports) = Inr None"
    using find_usb_scale_first_usable [of host_no_ports _ _ _ "[ustr ''sda'']"]
    by (simp add: host_no_ports_def host_eval)
  have u: "[1..<256] = 1 # 2 # [3..<256]"
    by (simp add: upt_conv_Cons)
  have s: "str_nat (Suc 0) = [49]" "str_nat 2 = [50]"
    by (simp_all add: str_nat.simps)
  have p: "windows_ports =
      [ustr ''COM1''] @ ustr ''COM2'' # map (\<lambda>port. ustr ''COM'' @ str_nat port) [3..<256]"
    unfolding windows_ports_def u by (simp add: s ustr_def)
  have n: "os_name host_com2 = ustr ''nt''"
    by (simp add: host_com2_def host_windows_def)
  have sk: "list_all (probe_skipped host_com2) [ustr ''COM1'']"
    by (simp add: probe_skipped_def host_com2_def host_windows_def is_SerialException_def
        ustr_def)
  have ok: "probe_ok host_com2 (ustr ''COM2'')"
    by (simp add: probe_ok_def host_com2_def host_windows_def)
  have c: "fst (find_usb_scale host_com2) = Inr (Some (Handle (ustr ''COM2'')))"
    using find_usb_scale_first_usable [where w = host_com2 and pre = "[ustr ''COM1'']"
        and c = "ustr ''COM2''" and post = "map (\<lambda>port. ustr ''COM'' @ str_nat port) [3..<256]",
        THEN conjunct2, THEN conjunct2, THEN conjunct2, THEN conjunct1] n p sk ok
    by blast
  have n': "os_name host_no_com = ustr ''nt''"
    by (simp add: host_no_com_def host_windows_def)
  have o: "list_all (probe_skipped host_no_com) windows_ports"
    by (simp add: list_all_iff probe_skipped_def host_no_com_def host_windows_def
        is_SerialException_def)
  have d: "fst (find_usb_scale host_no_com) = Inr None"
    using find_usb_scale_first_usable [where w = host_no_com, THEN conjunct2, THEN conjunct2,
        THEN conjunct2, THEN conjunct2, THEN conjunct1] n' o
    by blast
  from a b c d show ?thesis by simp
qed

theorem first_opened_port_skipped_counterexample:
  "listdir_dev host_write_fails = Inr [ustr ''sda'', ustr ''ttyUSB0'', ustr ''ttyACM0''] \<and>
   posix_ports [ustr ''sda'', ustr ''ttyUSB0'', ustr ''ttyACM0''] =
     [ustr ''/dev/ttyUSB0'', ustr ''/dev/ttyACM0''] \<and>
   serial_open host_write_fails (ustr ''/dev/ttyUSB0'') = None \<and>
   fst (find_usb_scale host_write_fails) = Inr (Some (Handle (ustr ''/dev/ttyACM0'')))"
  using find_write_fails
  by (simp add: host_write_fails_def host_eval)

section \<open>Properties of the tunnel information provider\<close>

lemma py_split_acc_nonempty: "py_split_acc sep acc s \<noteq> []"
  by (induction sep acc s rule: py_split_acc.induct) simp_all

lemma py_split_nonempty: "py_split sep s \<noteq> []"
  by (simp add: py_split_def py_split_acc_nonempty)

lemma py_split_acc_no_sep:
  "\<not> sublist sep s \<Longrightarrow> py_split_acc sep acc s = [acc @ s]"
proof (induction s arbitrary: acc)
  case Nil
  then show ?case by simp
next
  case (Cons c cs)
  from Cons.prems have "\<not> prefix sep (c # cs)" "\<not> sublist sep cs"
    by (auto simp: sublist_Cons_right)
  with Cons.IH [of "acc @ [c]"] show ?case by simp
qed

lemma py_split_acc_first:
  "p \<notin> set a \<Longrightarrow>
   py_split_acc (p # ps) acc (a @ (p # ps) @ b) = (acc @ a) # py_split_acc (p # ps) [] b"
proof (induction a arbitrary: acc)
  case Nil
  show ?case by simp
next
  case (Cons x a)
  then have "x \<noteq> p" "p \<notin> set a" by auto
  with Cons.IH [of "acc @ [x]"] show ?case by simp
qed

lemma subdomain_of_url:
  assumes "47 \<notin> set scheme" "46 \<notin> set label"
    "\<not> sublist (ustr ''//'') (label @ ustr ''.'' @ rest)"
  shows "subdomain (scheme @ ustr ''//'' @ label @ ustr ''.'' @ rest) = label"
proof -
  let ?host = "label @ ustr ''.'' @ rest"
  have "py_split_acc (47 # [47]) [] (scheme @ (47 # [47]) @ ?host) =
      ([] @ scheme) # py_split_acc (47 # [47]) [] ?host"
    using assms(1) by (rule py_split_acc_first)
  moreover have "py_split_acc (47 # [47]) [] ?host = [[] @ ?host]"
    using assms(3) by (intro py_split_acc_no_sep) (simp add: ustr_def)
  ultimately have l: "last (py_split (ustr ''//'') (scheme @ ustr ''//'' @ ?host)) = ?host"
    by (simp add: py_split_def ustr_def)
  have "py_split_acc (46 # []) [] (label @ (46 # []) @ rest) =
      ([] @ label) # py_split_acc (46 # []) [] rest"
    using assms(2) by (rule py_split_acc_first)
  then have h: "hd (py_split (ustr ''.'') ?host) = label"
    by (simp add: py_split_def ustr_def)
  show ?thesis
    unfolding subdomain_def l h ..
qed

lemma tunnel_url_SomeD:
  assumes "tunnel_url t = Some u"
  shows "\<exists>items. t = JObj items \<and>
           ((map_of items (ustr ''public_url'') = None \<and> u = []) \<or>
            map_of items (ustr ''public_url'') = Some (JStr u))"
  using assms by (auto simp: tunnel_url_def split: json.splits option.splits)

lemma scan_tunnels_step:
  assumes "tunnel_url t = Some u"
  shows "scan_tunnels (t # ts) =
           (if sublist (ustr ''https'') u then Inr (Some (connected_to (subdomain u)))
            else scan_tunnels ts)"
proof -
  from tunnel_url_SomeD [OF assms] obtain items where t: "t = JObj items"
    and u: "(map_of items (ustr ''public_url'') = None \<and> u = []) \<or>
            map_of items (ustr ''public_url'') = Some (JStr u)"
    by blast
  have e: "\<not> sublist (ustr ''https'') []"
    by (simp add: ustr_def)
  from u show ?thesis
  proof
    assume "map_of items (ustr ''public_url'') = None \<and> u = []"
    with t e show ?thesis
      by (simp add: dict_get_def py_in_def)
  next
    assume "map_of items (ustr ''public_url'') = Some (JStr u)"
    with t show ?thesis
      by (simp add: dict_get_def py_in_def shorten_def subdomain_def connected_to_def)
  qed
qed

lemma scan_tunnels_urls:
  "those (map tunnel_url ts) = Some urls \<Longrightarrow>
   scan_tunnels ts =
     Inr (case find (sublist (ustr ''https'')) urls of
            None \<Rightarrow> None
          | Some url \<Rightarrow> Some (connected_to (subdomain url)))"
proof (induction ts arbitrary: urls)
  case Nil
  then show ?case by simp
next
  case (Cons t ts)
  from Cons.prems obtain u us where u: "tunnel_url t = Some u"
    and us: "those (map tunnel_url ts) = Some us" and urls: "urls = u # us"
    by (auto split: option.splits)
  from Cons.IH [OF us] scan_tunnels_step [OF u, of ts] urls show ?case
    by simp
qed

lemma get_ngrok_url_listed:
  assumes "status_code r = 200" "json_body r = Inr body" "listed_urls body = Some urls"
  shows "get_ngrok_url (Inr r) =
           Inr (case find (sublist (ustr ''https'')) urls of
                  None \<Rightarrow> not_found
                | Some url \<Rightarrow> connected_to (subdomain url))"
proof -
  from assms(3) obtain items where b: "body = JObj items"
    by (auto simp: listed_urls_def split: json.splits)
  show ?thesis
  proof (cases "map_of items (ustr ''tunnels'')")
    case None
    with assms b show ?thesis
      by (simp add: get_ngrok_url_def get_ngrok_url_try_def dict_get_def py_iter_def
          listed_urls_def)
  next
    case (Some v)
    with assms(3) b obtain ts where v: "v = JArr ts" and t: "those (map tunnel_url ts) = Some urls"
      by (auto simp: listed_urls_def split: json.splits)
    from scan_tunnels_urls [OF t] assms(1,2) b Some v show ?thesis
      by (simp add: get_ngrok_url_def get_ngrok_url_try_def dict_get_def py_iter_def
          split: option.splits)
  qed
qed

lemma secure_url_has_https: "secure_url url \<Longrightarrow> sublist (ustr ''https'') url"
proof -
  assume "secure_url url"
  then obtain t where "url = ustr ''https://'' @ t"
    by (auto simp: secure_url_def prefix_def)
  then have "url = [] @ ustr ''https'' @ (ustr ''://'' @ t)"
    by (simp add: ustr_def)
  then show ?thesis
    by (simp only: sublist_appendI)
qed

lemma find_secure:
  "list_all (\<lambda>url. secure_url url \<or> \<not> sublist (ustr ''https'') url) urls \<Longrightarrow>
   find (sublist (ustr ''https'')) urls = find secure_url urls"
  by (induction urls) (auto dest: secure_url_has_https)

text \<open>
  Claim C8, as amended. The provider answers \<open>offline\<close> when the request raises a request
  exception (and when reading the JSON body does), \<open>not_found\<close> when the status is not
  200, and, for a 200 answer of the expected shape, \<open>not_found\<close> when no listed public URL
  is secure and otherwise \<open>connected\<close> with the label cut out of the first secure URL: the
  text between the last \<open>//\<close> and the first point after it, which for a URL
  \<open>scheme//label.rest\<close> is \<open>label\<close>. In all these cases it returns and does not raise.
  The statement is about answers in which only secure URLs contain the text \<open>https\<close>.
\<close>
theorem get_ngrok_url_degrades:
  "(is_RequestException e \<longrightarrow> get_ngrok_url (Inl e) = Inr offline) \<and>
   (status_code r \<noteq> 200 \<longrightarrow> get_ngrok_url (Inr r) = Inr not_found) \<and>
   (status_code r = 200 \<and> json_body r = Inl e \<and> is_RequestException e \<longrightarrow>
      get_ngrok_url (Inr r) = Inr offline) \<and>
   (status_code r = 200 \<and> json_body r = Inr body \<and> listed_urls body = Some urls \<and>
    list_all (\<lambda>url. secure_url url \<or> \<not> sublist (ustr ''https'') url) urls \<longrightarrow>
      get_ngrok_url (Inr r) =
        Inr (case find secure_url urls of
               None \<Rightarrow> not_found
             | Some url \<Rightarrow> connected_to (subdomain url))) \<and>
   (47 \<notin> set scheme \<and> 46 \<notin> set label \<and>
    \<not> sublist (ustr ''//'') (label @ ustr ''.'' @ rest) \<longrightarrow>
      subdomain (scheme @ ustr ''//'' @ label @ ustr ''.'' @ rest) = label)"
proof (intro conjI impI; (elim conjE)?)
  assume "is_RequestException e"
  then show "get_ngrok_url (Inl e) = Inr offline"
    by (simp add: get_ngrok_url_def get_ngrok_url_try_def)
next
  assume "status_code r \<noteq> 200"
  then show "get_ngrok_url (Inr r) = Inr not_found"
    by (simp add: get_ngrok_url_def get_ngrok_url_try_def)
next
  assume "status_code r = 200" "json_body r = Inl e" "is_RequestException e"
  then show "get_ngrok_url (Inr r) = Inr offline"
    by (simp add: get_ngrok_url_def get_ngrok_url_try_def)
next
  assume a: "status_code r = 200" "json_body r = Inr body" "listed_urls body = Some urls"
    and s: "list_all (\<lambda>url. secure_url url \<or> \<not> sublist (ustr ''https'') url) urls"
  from a have "get_ngrok_url (Inr r) =
        Inr (case find (sublist (ustr ''https'')) urls of
               None \<Rightarrow> not_found
             | Some url \<Rightarrow> connected_to (subdomain url))"
    by (rule get_ngrok_url_listed)
  then show "get_ngrok_url (Inr r) =
        Inr (case find secure_url urls of
               None \<Rightarrow> not_found
             | Some url \<Rightarrow> connected_to (subdomain url))"
    by (simp only: find_secure [OF s])
next
  assume "47 \<notin> set scheme" "46 \<notin> set label"
    "\<not> sublist (ustr ''//'') (label @ ustr ''.'' @ rest)"
  then show "subdomain (scheme @ ustr ''//'' @ label @ ustr ''.'' @ rest) = label"
    by (rule subdomain_of_url)
qed

lemmas json_eval = answer_def tunnels_of_def listed_urls_def tunnel_url_def

theorem get_ngrok_url_degrades_witness:
  "get_ngrok_url (Inl (Exn ConnectionError (ustr ''Connection refused''))) =
     Inr [(ustr ''url'', JStr (ustr ''Not available'')), (ustr ''status'', JStr (ustr ''offline''))] \<and>
   get_ngrok_url (Inr \<lparr>status_code = 502, json_body = Inl (Exn ValueError [])\<rparr>) =
     Inr [(ustr ''url'', JStr (ustr ''Not found'')), (ustr ''status'', JStr (ustr ''not_found''))] \<and>
   get_ngrok_url (Inr \<lparr>status_code = 200, json_body = Inl (Exn RequestException [])\<rparr>) =
     Inr [(ustr ''url'', JStr (ustr ''Not available'')), (ustr ''status'', JStr (ustr ''offline''))] \<and>
   get_ngrok_url (answer (tunnels_of [''tcp://0.tcp.ngrok.io:12345''])) =
     Inr [(ustr ''url'', JStr (ustr ''Not found'')), (ustr ''status'', JStr (ustr ''not_found''))] \<and>
   get_ngrok_url (answer (tunnels_of [''http://abc.ngrok.io'', ''https://abc.ngrok.io''])) =
     Inr [(ustr ''url'', JStr (ustr ''abc'')), (ustr ''status'', JStr (ustr ''connected''))]"
proof -
  have a: "get_ngrok_url (Inl (Exn ConnectionError (ustr ''Connection refused''))) = Inr offline"
    using get_ngrok_url_degrades [where e = "Exn ConnectionError (ustr ''Connection refused'')", THEN conjunct1]
    by (simp add: is_RequestException_def)
  have b: "get_ngrok_url (Inr \<lparr>status_code = 502, json_body = Inl (Exn ValueError [])\<rparr>) =
      Inr not_found"
    using get_ngrok_url_degrades [where r = "\<lparr>status_code = 502, json_body = Inl (Exn ValueError [])\<rparr>",
        THEN conjunct2, THEN conjunct1]
    by simp
  have c: "get_ngrok_url (Inr \<lparr>status_code = 200, json_body = Inl (Exn RequestException [])\<rparr>) =
      Inr offline"
    using get_ngrok_url_degrades [where r = "\<lparr>status_code = 200, json_body = Inl (Exn RequestException [])\<rparr>"
        and e = "Exn RequestException []", THEN conjunct2, THEN conjunct2, THEN conjunct1]
    by (simp add: is_RequestException_def)
  have l1: "listed_urls (tunnels_of [''tcp://0.tcp.ngrok.io:12345'']) =
      Some [ustr ''tcp://0.tcp.ngrok.io:12345'']"
    by (simp add: json_eval) (simp add: ustr_def)
  have f1: "find secure_url [ustr ''tcp://0.tcp.ngrok.io:12345''] = None"
    by (simp add: ustr_def secure_url_def)
  have h1: "list_all (\<lambda>url. secure_url url \<or> \<not> sublist (ustr ''https'') url)
      [ustr ''tcp://0.tcp.ngrok.io:12345'']"
    by (simp add: ustr_def sublist_code)
  have p1: "status_code \<lparr>status_code = 200,
        json_body = Inr (tunnels_of [''tcp://0.tcp.ngrok.io:12345''])\<rparr> = 200 \<and>
      json_body \<lparr>status_code = 200,
        json_body = Inr (tunnels_of [''tcp://0.tcp.ngrok.io:12345''])\<rparr> =
        Inr (tunnels_of [''tcp://0.tcp.ngrok.io:12345'']) \<and>
      listed_urls (tunnels_of [''tcp://0.tcp.ngrok.io:12345'']) =
        Some [ustr ''tcp://0.tcp.ngrok.io:12345''] \<and>
      list_all (\<lambda>url. secure_url url \<or> \<not> sublist (ustr ''https'') url)
        [ustr ''tcp://0.tcp.ngrok.io:12345'']"
    using l1 h1 by simp
  have d: "get_ngrok_url (answer (tunnels_of [''tcp://0.tcp.ngrok.io:12345''])) = Inr not_found"
    using get_ngrok_url_degrades [THEN conjunct2, THEN conjunct2, THEN conjunct2,
        THEN conjunct1, THEN mp, OF p1]
    by (simp add: answer_def f1 del: find.simps)
  have l2: "listed_urls (tunnels_of [''http://abc.ngrok.io'', ''https://abc.ngrok.io'']) =
      Some [ustr ''http://abc.ngrok.io'', ustr ''https://abc.ngrok.io'']"
    by (simp add: json_eval) (simp add: ustr_def)
  have f2: "find secure_url [ustr ''http://abc.ngrok.io'', ustr ''https://abc.ngrok.io'']
      = Some (ustr ''https://abc.ngrok.io'')"
    by (simp add: ustr_def secure_url_def)
  have h2: "list_all (\<lambda>url. secure_url url \<or> \<not> sublist (ustr ''https'') url)
      [ustr ''http://abc.ngrok.io'', ustr ''https://abc.ngrok.io'']"
    by (simp add: ustr_def sublist_code secure_url_def)
  have s: "subdomain (ustr ''https://abc.ngrok.io'') = ustr ''abc''"
    using get_ngrok_url_degrades [where scheme = "ustr ''https:''" and label = "ustr ''abc''"
        and rest = "ustr ''ngrok.io''",
        THEN conjunct2, THEN conjunct2, THEN conjunct2, THEN conjunct2]
    by (simp add: ustr_def sublist_code)
  have p2: "status_code \<lparr>status_code = 200,
        json_body = Inr (tunnels_of [''http://abc.ngrok.io'', ''https://abc.ngrok.io''])\<rparr> = 200 \<and>
      json_body \<lparr>status_code = 200,
        json_body = Inr (tunnels_of [''http://abc.ngrok.io'', ''https://abc.ngrok.io''])\<rparr> =
        Inr (tunnels_of [''http://abc.ngrok.io'', ''https://abc.ngrok.io'']) \<and>
      listed_urls (tunnels_of [''http://abc.ngrok.io'', ''https://abc.ngrok.io'']) =
        Some [ustr ''http://abc.ngrok.io'', ustr ''https://abc.ngrok.io''] \<and>
      list_all (\<lambda>url. secure_url url \<or> \<not> sublist (ustr ''https'') url)
        [ustr ''http://abc.ngrok.io'', ustr ''https://abc.ngrok.io'']"
    using l2 h2 by simp
  have g: "get_ngrok_url (answer (tunnels_of [''http://abc.ngrok.io'', ''https://abc.ngrok.io''])) =
      Inr (connected_to (ustr ''abc''))"
    using get_ngrok_url_degrades [THEN conjunct2, THEN conjunct2, THEN conjunct2,
        THEN conjunct1, THEN mp, OF p2]
    by (simp add: answer_def f2 s del: find.simps)
  from a b c d g show ?thesis
    by (simp add: offline_def not_found_def connected_to_def)
qed

text \<open>
  The source looks for the text \<open>https\<close> anywhere in the URL, not for the scheme: a public
  URL of the plain scheme whose host contains that text is taken for a secure one.
\<close>

lemma https_anywhere_in_url:
  "get_ngrok_url (answer (tunnels_of [''http://myhttps.ngrok.io''])) =
     Inr (connected_to (ustr ''myhttps''))"
proof -
  have l: "listed_urls (tunnels_of [''http://myhttps.ngrok.io'']) =
      Some [ustr ''http://myhttps.ngrok.io'']"
    by (simp add: json_eval) (simp add: ustr_def)
  have f: "find (sublist (ustr ''https'')) [ustr ''http://myhttps.ngrok.io''] =
      Some (ustr ''http://myhttps.ngrok.io'')"
    by (simp add: ustr_def sublist_code)
  have "subdomain (ustr ''http:'' @ ustr ''//'' @ ustr ''myhttps'' @ ustr ''.'' @ ustr ''ngrok.io'') =
      ustr ''myhttps''"
    by (rule subdomain_of_url) (simp_all add: ustr_def sublist_code)
  then have s: "subdomain (ustr ''http://myhttps.ngrok.io'') = ustr ''myhttps''"
    by (simp add: ustr_def)
  have "get_ngrok_url (Inr \<lparr>status_code = 200,
      json_body = Inr (tunnels_of [''http://myhttps.ngrok.io''])\<rparr>) =
      Inr (case find (sublist (ustr ''https'')) [ustr ''http://myhttps.ngrok.io''] of
             None \<Rightarrow> not_found
           | Some url \<Rightarrow> connected_to (subdomain url))"
    using l by (intro get_ngrok_url_listed) simp_all
  then show ?thesis
    by (simp add: answer_def f s del: find.simps)
qed

theorem get_ngrok_url_raises_counterexample:
  "get_ngrok_url (answer (JObj [(ustr ''tunnels'', JNull)])) =
     Inl (Exn TypeError ([39] @ ustr ''NoneType'' @ [39] @ ustr '' object is not iterable''))"
  by (simp add: get_ngrok_url_def get_ngrok_url_try_def answer_def dict_get_def py_iter_def
      not_iterable_def type_name_def is_RequestException_def)

end
